theory Spec2Isabelle
  imports Complex_Main "HOL-Library.Log_Nat"
begin

section \<open>Python builtins used by the downloader\<close>

text \<open>
  The program is the single file \<^verbatim>\<open>yt_downloader.py\<close>. A Python \<^verbatim>\<open>str\<close> is modelled
  as a \<^typ>\<open>string\<close> whose characters are the code points below 256; the character
  classes below are those of CPython on that range.
\<close>

type_synonym path = string

text \<open>The exceptions that occur in the program, by class.\<close>

datatype exn =
    ValueError
  | OverflowError
  | AttributeError
  | NameError
  | FileNotFoundError
  | PermissionError
  | CalledProcessError "string list" int
  | Other string

subsection \<open>\<^verbatim>\<open>str.strip\<close>, \<^verbatim>\<open>str.isdigit\<close>, \<^verbatim>\<open>str.endswith\<close>, \<^verbatim>\<open>str.lower\<close>\<close>

definition isspace :: "char \<Rightarrow> bool" where
  "isspace c =
     (let n = (of_char c :: nat)
      in (9 \<le> n \<and> n \<le> 13) \<or> (28 \<le> n \<and> n \<le> 32) \<or> n = 133 \<or> n = 160)"

definition strip :: "string \<Rightarrow> string" where
  "strip s = rev (dropWhile isspace (rev (dropWhile isspace s)))"

definition is_ascii_digit :: "char \<Rightarrow> bool" where
  "is_ascii_digit c = (let n = (of_char c :: nat) in 48 \<le> n \<and> n \<le> 57)"

text \<open>
  \<^verbatim>\<open>str.isdigit\<close> also accepts the superscript digits U+00B2, U+00B3 and U+00B9, and is
  false on the empty string.
\<close>

definition isdigit_char :: "char \<Rightarrow> bool" where
  "isdigit_char c =
     (let n = (of_char c :: nat) in (48 \<le> n \<and> n \<le> 57) \<or> n = 178 \<or> n = 179 \<or> n = 185)"

definition isdigit :: "string \<Rightarrow> bool" where
  "isdigit s = (s \<noteq> [] \<and> list_all isdigit_char s)"

definition endswith :: "string \<Rightarrow> string \<Rightarrow> bool" where
  "endswith s suffix = (length suffix \<le> length s \<and> drop (length s - length suffix) s = suffix)"

definition lower_char :: "char \<Rightarrow> char" where
  "lower_char c =
     (let n = (of_char c :: nat)
      in if (65 \<le> n \<and> n \<le> 90) \<or> (192 \<le> n \<and> n \<le> 222 \<and> n \<noteq> 215)
         then char_of (n + 32) else c)"

definition lower :: "string \<Rightarrow> string" where
  "lower s = map lower_char s"

text \<open>\<^verbatim>\<open>sub in s\<close> on strings.\<close>

fun contains :: "string \<Rightarrow> string \<Rightarrow> bool" where
  "contains [] sub = (sub = [])"
| "contains (c # cs) sub = (take (length sub) (c # cs) = sub \<or> contains cs sub)"

subsection \<open>Decimal numerals\<close>

definition digit_val :: "char \<Rightarrow> nat" where
  "digit_val c = of_char c - 48"

definition dec_value :: "string \<Rightarrow> nat" where
  "dec_value s = foldl (\<lambda>a c. 10 * a + digit_val c) 0 s"

definition digit_char :: "nat \<Rightarrow> char" where
  "digit_char d = char_of (48 + d)"

fun str_nat :: "nat \<Rightarrow> string" where
  "str_nat n = (if n < 10 then [digit_char n] else str_nat (n div 10) @ [digit_char (n mod 10)])"

declare str_nat.simps [simp del]

text \<open>The format \<^verbatim>\<open>{n:02d}\<close>: zero padded to width two, the sign counted in the width.\<close>

definition fmt_02d :: "int \<Rightarrow> string" where
  "fmt_02d n =
     (if n < 0 then CHR ''-'' # str_nat (nat (- n))
      else if n < 10 then CHR ''0'' # str_nat (nat n)
      else str_nat (nat n))"

subsection \<open>\<^verbatim>\<open>int(float(s))\<close>\<close>

text \<open>
  \<^verbatim>\<open>float(s)\<close> first checks the underscores of \<open>s\<close> (one underscore is allowed
  between two digits) and drops them; \<open>prev\<close> is the character before the current one.
\<close>

fun drop_underscores :: "char \<Rightarrow> string \<Rightarrow> string option" where
  "drop_underscores prev [] = (if prev = CHR ''_'' then None else Some [])"
| "drop_underscores prev (c # cs) =
     (if c = CHR ''_'' then
        (if is_ascii_digit prev then drop_underscores c cs else None)
      else if prev = CHR ''_'' \<and> \<not> is_ascii_digit c then None
      else map_option ((#) c) (drop_underscores c cs))"

definition split_sign :: "string \<Rightarrow> bool \<times> string" where
  "split_sign s =
     (case s of
        [] \<Rightarrow> (False, [])
      | c # cs \<Rightarrow> if c = CHR ''-'' then (True, cs) else if c = CHR ''+'' then (False, cs)
                 else (False, s))"

text \<open>
  The exponent part of a decimal literal: nothing, or \<^verbatim>\<open>e\<close>/\<^verbatim>\<open>E\<close>, an optional sign and
  at least one digit. \<open>None\<close> when the rest of the string is anything else.
\<close>

definition parse_exponent :: "string \<Rightarrow> int option" where
  "parse_exponent r =
     (case r of
        [] \<Rightarrow> Some 0
      | c # cs \<Rightarrow>
          if c = CHR ''e'' \<or> c = CHR ''E'' then
            (let (neg, ds) = split_sign cs
             in if ds \<noteq> [] \<and> list_all is_ascii_digit ds
                then Some (if neg then - int (dec_value ds) else int (dec_value ds))
                else None)
          else None)"

text \<open>
  A decimal literal without its sign, as the fraction \<open>p / q\<close> of two naturals:
  digits, an optional point and digits (at least one digit in all), an optional exponent.
\<close>

definition parse_decimal :: "string \<Rightarrow> (nat \<times> nat) option" where
  "parse_decimal r =
     (let ip = takeWhile is_ascii_digit r;
          r1 = dropWhile is_ascii_digit r;
          fp = (case r1 of [] \<Rightarrow> [] | c # cs \<Rightarrow>
                  if c = CHR ''.'' then takeWhile is_ascii_digit cs else []);
          r2 = (case r1 of [] \<Rightarrow> [] | c # cs \<Rightarrow>
                  if c = CHR ''.'' then dropWhile is_ascii_digit cs else r1)
      in if ip = [] \<and> fp = [] then None
         else case parse_exponent r2 of
                None \<Rightarrow> None
              | Some e \<Rightarrow>
                  (let m = dec_value (ip @ fp);
                       e10 = e - int (length fp)
                   in if 0 \<le> e10 then Some (m * 10 ^ nat e10, 1)
                      else Some (m, 10 ^ nat (- e10))))"

text \<open>
  Rounding to an IEEE double, with integer arithmetic only. \<open>floor_log2 p q\<close> is
  \<open>\<lfloor>log\<^sub>2 (p / q)\<rfloor>\<close> for positive \<open>p\<close> and \<open>q\<close>; \<open>round_half_even a b\<close> is \<open>a / b\<close>
  rounded to the nearest integer, ties to even. \<open>double_trunc p q\<close> is the integer
  part of the double nearest to \<open>p / q\<close>, \<open>None\<close> when that double is infinite: doubles
  in \<open>[2\<^sup>k, 2\<^sup>k\<^sup>+\<^sup>1)\<close> are the multiples of \<open>2\<^sup>k\<^sup>-\<^sup>5\<^sup>2\<close>, and a value below one half has
  integer part zero.
\<close>

definition floor_log2 :: "nat \<Rightarrow> nat \<Rightarrow> int" where
  "floor_log2 p q =
     (let b = int (floorlog 2 p) - int (floorlog 2 q)
      in if q * 2 ^ nat b \<le> p * 2 ^ nat (- b) then b else b - 1)"

definition round_half_even :: "nat \<Rightarrow> nat \<Rightarrow> nat" where
  "round_half_even a b =
     (let d = a div b; r = a mod b
      in if b < 2 * r \<or> (2 * r = b \<and> odd d) then d + 1 else d)"

definition double_trunc :: "nat \<Rightarrow> nat \<Rightarrow> nat option" where
  "double_trunc p q =
     (if p = 0 then Some 0
      else let k = floor_log2 p q
           in if k < - 1 then Some 0
              else if k < 52 then
                Some (round_half_even (p * 2 ^ nat (52 - k)) q div 2 ^ nat (52 - k))
              else
                (let u = 2 ^ nat (k - 52); r = round_half_even p (q * u) * u
                 in if 2 ^ 1024 \<le> r then None else Some r))"

text \<open>
  \<^verbatim>\<open>int(float(s))\<close> for a string \<open>s\<close> that \<^verbatim>\<open>str.strip\<close> has already stripped (the
  whitespace \<^verbatim>\<open>float\<close> strips is a subset). \<^verbatim>\<open>float\<close> raises \<^verbatim>\<open>ValueError\<close> on a string
  that is no literal; \<^verbatim>\<open>int\<close> raises \<^verbatim>\<open>OverflowError\<close> on an infinity and
  \<^verbatim>\<open>ValueError\<close> on a NaN, and truncates towards zero otherwise.
\<close>

definition int_float :: "string \<Rightarrow> exn + int" where
  "int_float s =
     (case drop_underscores (CHR 0x00) s of
        None \<Rightarrow> Inl ValueError
      | Some t \<Rightarrow>
          (let (neg, r) = split_sign t; w = lower r
           in if w = ''inf'' \<or> w = ''infinity'' then Inl OverflowError
              else if w = ''nan'' then Inl ValueError
              else case parse_decimal r of
                     None \<Rightarrow> Inl ValueError
                   | Some (p, q) \<Rightarrow>
                       (case double_trunc p q of
                          None \<Rightarrow> Inl OverflowError
                        | Some n \<Rightarrow> Inr (if neg then - int n else int n))))"

section \<open>Trim marks\<close>

text \<open>
  \<^verbatim>\<open>normalize\<close>, the local function of \<^verbatim>\<open>process_task\<close>. Its bare \<^verbatim>\<open>except\<close> turns
  every exception of the conversion into \<^verbatim>\<open>None\<close>.
\<close>

definition normalize :: "string \<Rightarrow> string option" where
  "normalize ts =
     (let s = strip ts
      in if s = [] then None
         else if CHR '':'' \<in> set s then Some s
         else case int_float s of
                Inl e \<Rightarrow> None
              | Inr sec0 \<Rightarrow>
                  (let h = sec0 div 3600;
                       m = (sec0 mod 3600) div 60;
                       sec = sec0 mod 60
                   in Some (fmt_02d h @ '':'' @ fmt_02d m @ '':'' @ fmt_02d sec)))"


section \<open>Paths\<close>

definition FFMPEG_CMD :: string where
  "FFMPEG_CMD = ''ffmpeg''"

text \<open>
  \<^verbatim>\<open>os.path.splitext\<close> and \<^verbatim>\<open>os.path.join\<close> of \<^verbatim>\<open>posixpath\<close>. The extension starts at
  the last dot of the last path component, unless only dots precede it there.
  \<open>rfind\<close> is \<^verbatim>\<open>str.rfind\<close> for one character.
\<close>

definition rfind :: "string \<Rightarrow> char \<Rightarrow> int" where
  "rfind p c =
     (if c \<in> set p then int (length p) - 1 - int (length (takeWhile (\<lambda>x. x \<noteq> c) (rev p)))
      else - 1)"

definition splitext :: "path \<Rightarrow> string \<times> string" where
  "splitext p =
     (let sepIndex = rfind p (CHR ''/'');
          dotIndex = rfind p (CHR ''.'')
      in if sepIndex < dotIndex \<and>
            \<not> list_all (\<lambda>c. c = CHR ''.'')
                (take (nat (dotIndex - (sepIndex + 1))) (drop (nat (sepIndex + 1)) p))
         then (take (nat dotIndex) p, drop (nat dotIndex) p)
         else (p, []))"

definition path_join :: "string \<Rightarrow> string \<Rightarrow> string" where
  "path_join a b =
     (if b \<noteq> [] \<and> hd b = CHR ''/'' then b
      else if a = [] then b
      else if last a = CHR ''/'' then a @ b
      else a @ ''/'' @ b)"

definition basename :: "path \<Rightarrow> string" where
  "basename p = rev (takeWhile (\<lambda>c. c \<noteq> CHR ''/'') (rev p))"

section \<open>Tasks, observer calls and the outside world\<close>

text \<open>The \<^verbatim>\<open>opts\<close> dictionary that \<^verbatim>\<open>add_to_queue\<close> builds; a task is \<^verbatim>\<open>(url, opts)\<close>.\<close>

record opts =
  quality :: string
  save_folder :: string
  start :: string
  end_ts :: string
  audio_only :: bool
  convert_mp3 :: bool
  subs :: bool
  subs_lang :: string
  noplaylist :: bool

type_synonym task = "string \<times> opts"

text \<open>Values of the option dictionaries handed to \<^verbatim>\<open>yt_dlp.YoutubeDL\<close>, and \<^verbatim>\<open>None\<close>.\<close>

datatype pyval =
    PyNone
  | PyStr string
  | PyBool bool
  | PyInt int
  | PyStrs "string list"
  | PyHooks

type_synonym pydict = "(string \<times> pyval) list"

text \<open>
  The text of a size: \<^verbatim>\<open>"Unknown"\<close>, or the scaled value (printed with two decimals)
  and its unit.
\<close>

datatype size_label = Unknown | Size real string

fun scale_size :: "real \<Rightarrow> string list \<Rightarrow> size_label" where
  "scale_size b [] = Size b ''PB''"
| "scale_size b (unit # units) = (if b < 1024 then Size b unit else scale_size (b / 1024) units)"

definition human_size :: "real option \<Rightarrow> size_label" where
  "human_size bytesize =
     (case bytesize of
        None \<Rightarrow> Unknown
      | Some b \<Rightarrow> if b = 0 then Unknown else scale_size b [''B'', ''KB'', ''MB'', ''GB'', ''TB''])"

text \<open>
  The calls on the \<^verbatim>\<open>App\<close> object a worker makes. A log message is its text and the
  exception formatted into it. \<^verbatim>\<open>Showerror\<close> is the callback
  \<^verbatim>\<open>lambda: messagebox.showerror(title, str(e))\<close> of the handler
  \<^verbatim>\<open>except Exception as e\<close>: it reads \<open>e\<close> when the event loop runs it, not when it is
  scheduled.
\<close>

datatype status_text =
    Text string
  | Downloading_text real size_label size_label

datatype ui_call =
    Log string "exn option"
  | Set_status status_text
  | Update_progress real
  | Add_history string path
  | Showerror string

text \<open>
  What a worker thread does, in order: a call on the \<^verbatim>\<open>App\<close> made directly on the
  worker thread, a callback handed to \<^verbatim>\<open>App.schedule\<close> (\<^verbatim>\<open>root.after(0, func)\<close>), and the
  calls of the external collaborators with their outcomes.
\<close>

datatype event =
    Direct ui_call
  | Schedule ui_call
  | Extract_info string pydict
  | Subprocess_run "string list" "exn + int"
  | Os_remove path "exn option"
  | Download_subs string pydict
  | Task_done

text \<open>The dictionary \<^verbatim>\<open>d\<close> that yt-dlp passes to a progress hook.\<close>

record hook_dict =
  status :: "string option"
  total_bytes :: "real option"
  total_bytes_estimate :: "real option"
  downloaded_bytes :: "real option"

text \<open>
  The outside world. \<open>ydl_download\<close> is \<^verbatim>\<open>extract_info(url, download=True)\<close> followed by
  \<^verbatim>\<open>prepare_filename(info)\<close>: the hook dictionaries it reports, the exception it raises
  or the file name, and the files on disk afterwards. \<open>subprocess_run\<close> gives the
  exception raised when the program cannot be started or its return code, and the files
  on disk afterwards. \<open>remove_denied\<close> is the error \<^verbatim>\<open>os.remove\<close> raises on an existing
  file, if any. \<open>ydl_subs\<close> is the subtitle download.
\<close>

record env =
  ydl_download :: "string \<Rightarrow> pydict \<Rightarrow> path set \<Rightarrow> hook_dict list \<times> (exn + path) \<times> path set"
  subprocess_run :: "string list \<Rightarrow> path set \<Rightarrow> (exn + int) \<times> path set"
  remove_denied :: "path \<Rightarrow> exn option"
  ydl_subs :: "string \<Rightarrow> pydict \<Rightarrow> path set \<Rightarrow> exn option \<times> path set"

definition os_remove :: "env \<Rightarrow> path \<Rightarrow> path set \<Rightarrow> exn + path set" where
  "os_remove env p d =
     (if p \<in> d then
        (case remove_denied env p of Some e \<Rightarrow> Inl e | None \<Rightarrow> Inr (d - {p}))
      else Inl FileNotFoundError)"

text \<open>\<^verbatim>\<open>subprocess.run(..., check=True)\<close> raises on a non-zero return code.\<close>

definition check :: "string list \<Rightarrow> exn + int \<Rightarrow> exn + int" where
  "check cmd r =
     (case r of
        Inl e \<Rightarrow> Inl e
      | Inr rc \<Rightarrow> if rc = 0 then Inr rc else Inl (CalledProcessError cmd rc))"

section \<open>\<^verbatim>\<open>DownloadWorker.process_task\<close>\<close>

text \<open>The state of one run: \<^verbatim>\<open>out_file\<close>, the files on disk, and what happened so far.\<close>

record pstate =
  out_file :: path
  disk :: "path set"
  events :: "event list"

subsection \<open>Format selection\<close>

definition format_selector :: "opts \<Rightarrow> string" where
  "format_selector opts =
     (if audio_only opts then ''bestaudio/best''
      else let q = quality opts
           in if q = ''best'' then ''bestvideo+bestaudio/best''
              else if endswith q ''p'' \<and> isdigit (butlast q)
              then ''bestvideo[height<='' @ butlast q @ '']+bestaudio/best''
              else ''bestvideo+bestaudio/best'')"

definition ydl_opts :: "opts \<Rightarrow> pydict" where
  "ydl_opts opts =
     [(''outtmpl'', PyStr (path_join (save_folder opts) ''%(title).120s.%(ext)s'')),
      (''noplaylist'', PyBool (noplaylist opts)),
      (''continuedl'', PyBool True),
      (''retries'', PyInt 6),
      (''no_warnings'', PyBool True),
      (''quiet'', PyBool True),
      (''format'', PyStr (format_selector opts)),
      (''progress_hooks'', PyHooks)]"

subsection \<open>The progress hook\<close>

text \<open>\<^verbatim>\<open>a or b\<close> on numbers that may be \<^verbatim>\<open>None\<close>: \<open>a\<close> if it is neither \<^verbatim>\<open>None\<close> nor zero.\<close>

definition truthy :: "real option \<Rightarrow> bool" where
  "truthy x = (case x of None \<Rightarrow> False | Some v \<Rightarrow> v \<noteq> 0)"

definition py_or :: "real option \<Rightarrow> real option \<Rightarrow> real option" where
  "py_or a b = (if truthy a then a else b)"

definition progress :: "hook_dict \<Rightarrow> event list" where
  "progress d =
     (if status d = Some ''downloading'' then
        (let tb = py_or (py_or (total_bytes d) (total_bytes_estimate d)) (Some 0);
             db = py_or (downloaded_bytes d) (Some 0);
             pct = (if truthy tb then the db / the tb * 100 else 0)
         in [Schedule (Update_progress pct),
             Schedule (Set_status (Downloading_text pct (human_size db) (human_size tb)))])
      else if status d = Some ''finished'' then
        [Schedule (Update_progress 100), Schedule (Set_status (Text ''Finalizing...''))]
      else [])"

subsection \<open>Download\<close>

definition fetch_stage :: "env \<Rightarrow> task \<Rightarrow> path set \<Rightarrow> (event list \<times> path set) + pstate" where
  "fetch_stage env task d0 =
     (let (u, opts) = task;
          (hooks, r, d1) = ydl_download env u (ydl_opts opts) d0;
          ev = [Direct (Log (''Start: '' @ u) None),
                Schedule (Set_status (Text ''Downloading...'')),
                Extract_info u (ydl_opts opts)] @ concat (map progress hooks)
      in case r of
           Inl e \<Rightarrow>
             Inl (ev @ [Direct (Log ''Download failed: '' (Some e)),
                        Schedule (Showerror ''Download failed'')], d1)
         | Inr f \<Rightarrow> Inr \<lparr>out_file = f, disk = d1, events = ev\<rparr>)"

subsection \<open>Conversion to MP3\<close>

text \<open>
  The end of both \<^verbatim>\<open>try\<close> blocks, after the tool has succeeded on disk \<open>d\<close> with the
  events \<open>ev\<close>: \<^verbatim>\<open>os.remove(out_file); out_file = new\<close>, with the handler's log line
  \<open>msg\<close> when the removal raises.
\<close>

definition remove_and_switch :: "env \<Rightarrow> string \<Rightarrow> path \<Rightarrow> path set \<Rightarrow> event list \<Rightarrow> pstate \<Rightarrow> pstate" where
  "remove_and_switch env msg new d ev ps =
     (case os_remove env (out_file ps) d of
        Inl e \<Rightarrow>
          ps\<lparr>disk := d,
             events := ev @ [Os_remove (out_file ps) (Some e), Direct (Log msg (Some e))]\<rparr>
      | Inr d' \<Rightarrow>
          ps\<lparr>out_file := new, disk := d', events := ev @ [Os_remove (out_file ps) None]\<rparr>)"

definition mp3_path :: "path \<Rightarrow> path" where
  "mp3_path f = fst (splitext f) @ ''.mp3''"

definition mp3_cmd :: "path \<Rightarrow> string list" where
  "mp3_cmd f =
     [FFMPEG_CMD, ''-y'', ''-i'', f, ''-vn'', ''-ab'', ''192k'', ''-ar'', ''44100'', mp3_path f]"

definition convert_stage :: "env \<Rightarrow> opts \<Rightarrow> pstate \<Rightarrow> pstate" where
  "convert_stage env opts ps =
     (if audio_only opts \<and> convert_mp3 opts then
        (let cmd = mp3_cmd (out_file ps);
             (r, d1) = subprocess_run env cmd (disk ps);
             ev = events ps @ [Subprocess_run cmd r]
         in case check cmd r of
              Inl e \<Rightarrow>
                ps\<lparr>disk := d1, events := ev @ [Direct (Log ''MP3 conversion failed: '' (Some e))]\<rparr>
            | Inr rc \<Rightarrow>
                remove_and_switch env ''MP3 conversion failed: '' (mp3_path (out_file ps)) d1 ev ps)
      else ps)"

subsection \<open>Trimming\<close>

text \<open>\<^verbatim>\<open>if ss: cmd += [flag, ss]\<close>: nothing for \<^verbatim>\<open>None\<close> (or an empty string).\<close>

definition opt_flag :: "string \<Rightarrow> string option \<Rightarrow> string list" where
  "opt_flag flag v = (case v of None \<Rightarrow> [] | Some s \<Rightarrow> if s = [] then [] else [flag, s])"

definition trimmed_path :: "path \<Rightarrow> path" where
  "trimmed_path f = fst (splitext f) @ ''_trimmed'' @ snd (splitext f)"

definition trim_cmd :: "opts \<Rightarrow> path \<Rightarrow> string list" where
  "trim_cmd opts f =
     [FFMPEG_CMD, ''-y'', ''-i'', f]
       @ opt_flag ''-ss'' (normalize (start opts))
       @ opt_flag ''-to'' (normalize (end_ts opts))"

definition cmd_copy :: "opts \<Rightarrow> path \<Rightarrow> string list" where
  "cmd_copy opts f = trim_cmd opts f @ [''-c'', ''copy'', trimmed_path f]"

definition cmd_re :: "opts \<Rightarrow> path \<Rightarrow> string list" where
  "cmd_re opts f = trim_cmd opts f @ [''-c:v'', ''libx264'', ''-c:a'', ''aac'', trimmed_path f]"

text \<open>\<^verbatim>\<open>if opts['start'] or opts['end']\<close>: a string is true when it is not empty.\<close>

definition wants_trim :: "opts \<Rightarrow> bool" where
  "wants_trim opts = (\<not> (start opts = [] \<and> end_ts opts = []))"

definition trim_stage :: "env \<Rightarrow> opts \<Rightarrow> pstate \<Rightarrow> pstate" where
  "trim_stage env opts ps =
     (if wants_trim opts then
        (let f = out_file ps;
             (r1, d1) = subprocess_run env (cmd_copy opts f) (disk ps);
             ev1 = events ps @ [Subprocess_run (cmd_copy opts f) r1]
         in case r1 of
              Inl e \<Rightarrow> ps\<lparr>disk := d1, events := ev1 @ [Direct (Log ''Trim failed: '' (Some e))]\<rparr>
            | Inr rc \<Rightarrow>
                if rc = 0 then remove_and_switch env ''Trim failed: '' (trimmed_path f) d1 ev1 ps
                else
                  (let (r2, d2) = subprocess_run env (cmd_re opts f) d1;
                       ev2 = ev1 @ [Subprocess_run (cmd_re opts f) r2]
                   in case check (cmd_re opts f) r2 of
                        Inl e \<Rightarrow>
                          ps\<lparr>disk := d2, events := ev2 @ [Direct (Log ''Trim failed: '' (Some e))]\<rparr>
                      | Inr rc2 \<Rightarrow>
                          remove_and_switch env ''Trim failed: '' (trimmed_path f) d2 ev2 ps))
      else ps)"

subsection \<open>Subtitles and the final updates\<close>

definition sub_opts :: "opts \<Rightarrow> pydict" where
  "sub_opts opts =
     [(''skip_download'', PyBool True),
      (''writesubtitles'', PyBool True),
      (''writeautomaticsub'', PyBool True),
      (''subtitleslangs'', PyStrs (if subs_lang opts = [] then [''en''] else [subs_lang opts])),
      (''outtmpl'', PyStr (path_join (save_folder opts) ''%(title).120s.%(ext)s'')),
      (''quiet'', PyBool True)]"

definition subs_stage :: "env \<Rightarrow> string \<Rightarrow> opts \<Rightarrow> pstate \<Rightarrow> pstate" where
  "subs_stage env u opts ps =
     (if subs opts then
        (let (r, d1) = ydl_subs env u (sub_opts opts) (disk ps);
             ev = events ps @ [Download_subs u (sub_opts opts)]
         in case r of
              Some e \<Rightarrow> ps\<lparr>disk := d1, events := ev @ [Direct (Log ''Sub download failed: '' (Some e))]\<rparr>
            | None \<Rightarrow> ps\<lparr>disk := d1, events := ev\<rparr>)
      else ps)"

definition final_updates :: "string \<Rightarrow> pstate \<Rightarrow> pstate" where
  "final_updates u ps =
     ps\<lparr>events := events ps @
          [Schedule (Add_history u (out_file ps)),
           Schedule (Update_progress 0),
           Schedule (Set_status (Text ''Ready'')),
           Direct (Log (''Completed: '' @ out_file ps) None)]\<rparr>"

subsection \<open>The whole task\<close>

text \<open>
  The states at the observation points of a task whose download succeeded in state
  \<open>ps\<close>, and \<^verbatim>\<open>process_task\<close> itself: the events of the task and the files on disk
  afterwards. Every call that can raise stands in a \<^verbatim>\<open>try\<close> of its own, so the function
  returns normally.
\<close>

definition after_convert :: "env \<Rightarrow> opts \<Rightarrow> pstate \<Rightarrow> pstate" where
  "after_convert env opts ps = convert_stage env opts ps"

definition after_trim :: "env \<Rightarrow> opts \<Rightarrow> pstate \<Rightarrow> pstate" where
  "after_trim env opts ps = trim_stage env opts (after_convert env opts ps)"

definition at_end :: "env \<Rightarrow> string \<Rightarrow> opts \<Rightarrow> pstate \<Rightarrow> pstate" where
  "at_end env u opts ps = final_updates u (subs_stage env u opts (after_trim env opts ps))"

definition process_task :: "env \<Rightarrow> task \<Rightarrow> path set \<Rightarrow> event list \<times> path set" where
  "process_task env task d0 =
     (case fetch_stage env task d0 of
        Inl failed \<Rightarrow> failed
      | Inr ps \<Rightarrow> (let fin = at_end env (fst task) (snd task) ps in (events fin, disk fin)))"

section \<open>\<^verbatim>\<open>DownloadWorker.run\<close>\<close>

text \<open>
  One element of the list is one turn of the loop \<^verbatim>\<open>while self.running\<close>: the queue was
  empty for the half second of \<^verbatim>\<open>q.get\<close>, or it gave a task. The loop ends when \<^verbatim>\<open>stop\<close>
  has cleared the flag, at the end of the list. \<^verbatim>\<open>process_task\<close> returns normally, so
  the handler \<^verbatim>\<open>except Exception\<close> around it has nothing to catch here.
\<close>

datatype poll = Empty | Got task

fun run :: "env \<Rightarrow> poll list \<Rightarrow> path set \<Rightarrow> event list \<times> path set" where
  "run env [] d = ([], d)"
| "run env (Empty # polls) d = run env polls d"
| "run env (Got task # polls) d =
     (let (ev, d1) = process_task env task d;
          (ev', d2) = run env polls d1
      in (ev @ [Task_done] @ ev', d2))"


section \<open>The \<^verbatim>\<open>App\<close> object\<close>

record history_item =
  item_time :: real
  item_url :: string
  item_file :: path

datatype dialog =
    Showwarning string string
  | Showerror_box string "exn option"

datatype eta_label = Eta_unknown | Eta int int

datatype estimate_label = No_estimate | Estimate size_label eta_label

text \<open>
  A worker thread as the rest of the program sees it: its flag \<^verbatim>\<open>running\<close> and the task
  its loop holds after \<^verbatim>\<open>q.get\<close>.
\<close>

record worker =
  running :: bool
  current :: "task option"

text \<open>
  The fields of \<^verbatim>\<open>App\<close> that the methods below read or write. A Tk variable
  \<^verbatim>\<open>self.x\<close> is the field \<open>x_var\<close>; \<open>dialogs\<close> are the message boxes shown,
  \<open>callback_errors\<close> the exceptions raised by callbacks of the event loop (Tk reports
  them and goes on), \<open>clock\<close> is \<^verbatim>\<open>time.time()\<close>, \<open>history_file\<close> the contents of
  \<^verbatim>\<open>HISTORY_FILE\<close>, which \<^verbatim>\<open>save_history\<close> rewrites unless the write raises. The time
  stamp of a log line is left out.
\<close>

record app =
  tasks_q :: "task list"
  workers :: "worker list"
  history :: "history_item list"
  history_file :: "history_item list"
  history_writable :: bool
  clock :: real
  url_var :: string
  quality_var :: string
  save_folder_var :: string
  start_var :: string
  end_var :: string
  audio_only_var :: bool
  convert_mp3_var :: bool
  subs_var :: bool
  subs_lang_var :: string
  estimate_label_var :: estimate_label
  status_var :: status_text
  progress_var :: real
  queue_listbox :: "string list"
  history_listbox :: "(real \<times> string) list"
  log_area :: "(string \<times> exn option) list"
  dialogs :: "dialog list"
  callback_errors :: "exn list"

definition ui_log :: "string \<Rightarrow> exn option \<Rightarrow> app \<Rightarrow> app" where
  "ui_log msg e a = a\<lparr>log_area := log_area a @ [(msg, e)]\<rparr>"

definition set_status :: "status_text \<Rightarrow> app \<Rightarrow> app" where
  "set_status txt a = a\<lparr>status_var := txt\<rparr>"

definition update_progress :: "real \<Rightarrow> app \<Rightarrow> app" where
  "update_progress pct a = a\<lparr>progress_var := pct\<rparr>"

definition save_history :: "app \<Rightarrow> app" where
  "save_history a = (if history_writable a then a\<lparr>history_file := history a\<rparr> else a)"

definition refresh_history_list :: "app \<Rightarrow> app" where
  "refresh_history_list a =
     a\<lparr>history_listbox := map (\<lambda>h. (item_time h, basename (item_file h))) (take 100 (history a))\<rparr>"

definition add_history :: "string \<Rightarrow> path \<Rightarrow> app \<Rightarrow> app" where
  "add_history u filepath a =
     refresh_history_list (save_history
       (a\<lparr>history := \<lparr>item_time = clock a, item_url = u, item_file = filepath\<rparr> # history a\<rparr>))"

text \<open>
  Running one call, and all the calls of a list of events in their order: the direct
  ones at once and the scheduled ones from the event loop. Both kinds of call write
  different fields, so the order between the two kinds does not matter here.
  The event loop runs the callback \<^verbatim>\<open>Showerror\<close> after \<^verbatim>\<open>process_task\<close> has left its
  \<^verbatim>\<open>except\<close> clause, and Python unbinds the variable \<open>e\<close> of the clause at its end: the
  callback raises \<^verbatim>\<open>NameError\<close> on \<^verbatim>\<open>str(e)\<close> before \<^verbatim>\<open>messagebox.showerror\<close> is
  called, and no box is shown.
\<close>

definition perform :: "ui_call \<Rightarrow> app \<Rightarrow> app" where
  "perform c a =
     (case c of
        Log msg e \<Rightarrow> ui_log msg e a
      | Set_status txt \<Rightarrow> set_status txt a
      | Update_progress pct \<Rightarrow> update_progress pct a
      | Add_history u f \<Rightarrow> add_history u f a
      | Showerror title \<Rightarrow> a\<lparr>callback_errors := callback_errors a @ [NameError]\<rparr>)"

fun deliver :: "event list \<Rightarrow> app \<Rightarrow> app" where
  "deliver [] a = a"
| "deliver (Direct c # evs) a = deliver evs (perform c a)"
| "deliver (Schedule c # evs) a = deliver evs (perform c a)"
| "deliver (ev # evs) a = deliver evs a"

subsection \<open>The queue\<close>

definition on_audio_toggle :: "app \<Rightarrow> app" where
  "on_audio_toggle a = (if audio_only_var a then a\<lparr>quality_var := ''audio''\<rparr> else a)"

definition add_to_queue :: "app \<Rightarrow> app" where
  "add_to_queue a =
     (let u = strip (url_var a)
      in if u = [] then
           a\<lparr>dialogs := dialogs a @ [Showwarning ''Input required'' ''Please paste a YouTube link.'']\<rparr>
         else
           (let opts = \<lparr>quality = quality_var a,
                        save_folder = save_folder_var a,
                        start = start_var a,
                        end_ts = end_var a,
                        audio_only = audio_only_var a,
                        convert_mp3 = convert_mp3_var a,
                        subs = subs_var a,
                        subs_lang = subs_lang_var a,
                        noplaylist = (if contains (lower u) ''playlist'' then False else True)\<rparr>
            in ui_log ''Added to queue.'' None
                 (a\<lparr>tasks_q := tasks_q a @ [(u, opts)],
                    queue_listbox := queue_listbox a @ [u @ '' ['' @ quality opts @ '']'']\<rparr>)))"

text \<open>
  \<^verbatim>\<open>q.get\<close> by the worker at index \<open>i\<close>: it takes the first pending task, if there is one.
\<close>

definition worker_get :: "nat \<Rightarrow> app \<Rightarrow> app" where
  "worker_get i a =
     (case tasks_q a of
        [] \<Rightarrow> a
      | t # ts \<Rightarrow>
          if i < length (workers a)
          then a\<lparr>tasks_q := ts, workers := (workers a)[i := (workers a ! i)\<lparr>current := Some t\<rparr>]\<rparr>
          else a)"

text \<open>\<^verbatim>\<open>clear_queue\<close> has no \<^verbatim>\<open>return\<close>: the call evaluates to \<^verbatim>\<open>None\<close>.\<close>

definition clear_queue :: "app \<Rightarrow> pyval \<times> app" where
  "clear_queue a =
     (PyNone, ui_log ''Queue cleared.'' None (a\<lparr>tasks_q := [], queue_listbox := []\<rparr>))"

subsection \<open>The estimate\<close>

text \<open>
  One request of \<^verbatim>\<open>quick_speed_test\<close>: an exception, or the lengths of the chunks the
  response delivers and the time \<^verbatim>\<open>t1 - t0\<close> measured around reading them.
\<close>

datatype probe = Request_failed exn | Response "nat list" real

fun read_chunks :: "nat \<Rightarrow> nat list \<Rightarrow> nat" where
  "read_chunks tot [] = tot"
| "read_chunks tot (chunk # chunks) =
     (if 200000 < tot + chunk then tot + chunk else read_chunks (tot + chunk) chunks)"

fun speed_loop :: "(string \<Rightarrow> probe) \<Rightarrow> string list \<Rightarrow> real option" where
  "speed_loop get [] = None"
| "speed_loop get (u # urls) =
     (case get u of
        Request_failed e \<Rightarrow> speed_loop get urls
      | Response chunks dt \<Rightarrow>
          if 0 < dt then Some (real (read_chunks 0 chunks) / dt) else speed_loop get urls)"

definition quick_speed_test :: "(string \<Rightarrow> probe) \<Rightarrow> real option" where
  "quick_speed_test get =
     speed_loop get
       [''https://www.google.com/images/branding/googlelogo/1x/googlelogo_color_272x92dp.png'',
        ''https://www.cloudflare.com/img/cf-horizontal-bw.svg'']"

text \<open>The metadata yt-dlp returns, as far as \<^verbatim>\<open>estimate\<close> reads it.\<close>

record format_entry =
  format_height :: "int option"
  format_filesize :: "real option"

record info =
  abr :: "real option"
  duration :: "real option"
  formats :: "format_entry list"
  filesize :: "real option"

record est_env =
  extract_info :: "string \<Rightarrow> exn + info"
  requests_get :: "string \<Rightarrow> probe"

text \<open>\<^verbatim>\<open>max(xs, key=...)\<close> on a non-empty list: the first of the largest elements.\<close>

fun max_by :: "('a \<Rightarrow> real) \<Rightarrow> 'a \<Rightarrow> 'a list \<Rightarrow> 'a" where
  "max_by key best [] = best"
| "max_by key best (x # xs) = max_by key (if key best < key x then x else best) xs"

definition py_max :: "('a \<Rightarrow> real) \<Rightarrow> 'a list \<Rightarrow> 'a option" where
  "py_max key xs = (case xs of [] \<Rightarrow> None | x # rest \<Rightarrow> Some (max_by key x rest))"

text \<open>\<^verbatim>\<open>int(s)\<close> for a string on which \<^verbatim>\<open>str.isdigit\<close> holds.\<close>

definition py_int :: "string \<Rightarrow> exn + int" where
  "py_int s = (if s \<noteq> [] \<and> list_all is_ascii_digit s then Inr (int (dec_value s)) else Inl ValueError)"

definition height_ok :: "int \<Rightarrow> format_entry \<Rightarrow> bool" where
  "height_ok h f =
     (case format_height f of
        None \<Rightarrow> False
      | Some x \<Rightarrow> x \<noteq> 0 \<and> x \<le> h \<and> truthy (format_filesize f))"

text \<open>
  The choice of \<^verbatim>\<open>sel\<close>, \<^verbatim>\<open>None\<close> when no format qualifies, and \<^verbatim>\<open>est_bytes\<close>. Calling
  \<^verbatim>\<open>sel.get\<close> on \<^verbatim>\<open>None\<close> raises \<^verbatim>\<open>AttributeError\<close>.
\<close>

definition select_format :: "string \<Rightarrow> format_entry list \<Rightarrow> exn + format_entry option" where
  "select_format q fs =
     (if q = ''best'' then Inr (if fs = [] then None else Some (last fs))
      else if endswith q ''p'' \<and> isdigit (butlast q) then
        (case py_int (butlast q) of
           Inl e \<Rightarrow> Inl e
         | Inr h \<Rightarrow>
             Inr (py_max (\<lambda>x. case format_height x of None \<Rightarrow> 0 | Some v \<Rightarrow> real_of_int v)
                    (filter (height_ok h) fs)))
      else
        Inr (py_max (\<lambda>x. the (format_filesize x)) (filter (\<lambda>f. truthy (format_filesize f)) fs)))"

definition est_bytes :: "app \<Rightarrow> info \<Rightarrow> exn + real option" where
  "est_bytes a i =
     (if audio_only_var a then
        Inr (Some (the (py_or (abr i) (Some 128)) * 1000 / 8 * the (py_or (duration i) (Some 0))))
      else
        (case select_format (quality_var a) (formats i) of
           Inl e \<Rightarrow> Inl e
         | Inr None \<Rightarrow> Inl AttributeError
         | Inr (Some sel) \<Rightarrow> Inr (py_or (py_or (format_filesize sel) (filesize i)) None)))"

definition eta_str :: "real option \<Rightarrow> real option \<Rightarrow> eta_label" where
  "eta_str bytes spd =
     (if truthy spd then
        (let eta = (if truthy bytes then Some (the bytes / the spd) else None)
         in if truthy eta
            then Eta \<lfloor>the eta / 60\<rfloor> \<lfloor>the eta - 60 * of_int \<lfloor>the eta / 60\<rfloor>\<rfloor>
            else Eta_unknown)
      else Eta_unknown)"

definition estimate :: "est_env \<Rightarrow> app \<Rightarrow> app" where
  "estimate env a =
     (let u = strip (url_var a)
      in if u = [] then
           a\<lparr>dialogs := dialogs a @ [Showwarning ''Input'' ''Paste a YouTube URL first.'']\<rparr>
         else
           (case extract_info env u of
              Inl e \<Rightarrow> a\<lparr>dialogs := dialogs a @ [Showerror_box ''Estimate failed'' (Some e)]\<rparr>
            | Inr i \<Rightarrow>
                (case est_bytes a i of
                   Inl e \<Rightarrow> a\<lparr>dialogs := dialogs a @ [Showerror_box ''Estimate failed'' (Some e)]\<rparr>
                 | Inr bytes \<Rightarrow>
                     (let spd = quick_speed_test (requests_get env)
                      in ui_log ''Estimate done'' None
                           (a\<lparr>estimate_label_var :=
                                Estimate (human_size bytes) (eta_str bytes spd)\<rparr>)))))"

section \<open>Notions used to state the properties\<close>

text \<open>
  The exception that leaves the \<^verbatim>\<open>try\<close> block of the conversion, and of the trimming, in
  state \<open>ps\<close>, if any: from a tool that cannot be started or (with \<^verbatim>\<open>check=True\<close>) exits
  non-zero, or from \<^verbatim>\<open>os.remove\<close>.
\<close>

definition convert_raises :: "env \<Rightarrow> pstate \<Rightarrow> exn option" where
  "convert_raises env ps =
     (let (r, d1) = subprocess_run env (mp3_cmd (out_file ps)) (disk ps)
      in case check (mp3_cmd (out_file ps)) r of
           Inl e \<Rightarrow> Some e
         | Inr rc \<Rightarrow> (case os_remove env (out_file ps) d1 of Inl e \<Rightarrow> Some e | Inr d \<Rightarrow> None))"

definition trim_raises :: "env \<Rightarrow> opts \<Rightarrow> pstate \<Rightarrow> exn option" where
  "trim_raises env opts ps =
     (let (r1, d1) = subprocess_run env (cmd_copy opts (out_file ps)) (disk ps)
      in case r1 of
           Inl e \<Rightarrow> Some e
         | Inr rc \<Rightarrow>
             if rc = 0 then
               (case os_remove env (out_file ps) d1 of Inl e \<Rightarrow> Some e | Inr d \<Rightarrow> None)
             else
               (let (r2, d2) = subprocess_run env (cmd_re opts (out_file ps)) d1
                in case check (cmd_re opts (out_file ps)) r2 of
                     Inl e \<Rightarrow> Some e
                   | Inr rc2 \<Rightarrow>
                       (case os_remove env (out_file ps) d2 of Inl e \<Rightarrow> Some e | Inr d \<Rightarrow> None)))"

text \<open>Events that change neither the history nor the status: log lines and external calls.\<close>

fun quiet :: "event \<Rightarrow> bool" where
  "quiet (Direct (Log msg e)) = True"
| "quiet (Subprocess_run cmd r) = True"
| "quiet (Os_remove p r) = True"
| "quiet (Download_subs u yo) = True"
| "quiet ev = False"

text \<open>The state in which a download that reported \<open>hooks\<close> and produced \<open>f\<close> leaves a task.\<close>

definition fetched :: "string \<Rightarrow> opts \<Rightarrow> hook_dict list \<Rightarrow> path \<Rightarrow> path set \<Rightarrow> pstate" where
  "fetched u opts hooks f d =
     \<lparr>out_file = f, disk = d,
      events = [Direct (Log (''Start: '' @ u) None),
                Schedule (Set_status (Text ''Downloading...'')),
                Extract_info u (ydl_opts opts)] @ concat (map progress hooks)\<rparr>"

section \<open>Example inputs\<close>

text \<open>Concrete tasks, worlds and application states at which the theorems are evaluated.\<close>

definition opts_bad_start :: opts where
  "opts_bad_start =
     \<lparr>quality = ''best'', save_folder = ''/dl'', start = ''abc'', end_ts = ''90'',
      audio_only = False, convert_mp3 = False, subs = False, subs_lang = ''en'',
      noplaylist = True\<rparr>"

definition opts_blank_end :: opts where
  "opts_blank_end =
     \<lparr>quality = ''best'', save_folder = ''/dl'', start = ''0:10'', end_ts = ''  '',
      audio_only = False, convert_mp3 = False, subs = False, subs_lang = ''en'',
      noplaylist = True\<rparr>"

definition opts_plain :: opts where
  "opts_plain =
     \<lparr>quality = ''best'', save_folder = ''/dl'', start = [], end_ts = [],
      audio_only = False, convert_mp3 = False, subs = False, subs_lang = ''en'',
      noplaylist = True\<rparr>"

definition hook_quarter :: hook_dict where
  "hook_quarter =
     \<lparr>status = Some ''downloading'', total_bytes = Some 1000, total_bytes_estimate = None,
      downloaded_bytes = Some 250\<rparr>"

definition env_first_fails :: env where
  "env_first_fails =
     \<lparr>ydl_download = (\<lambda>u yo d.
        if u = ''https://youtu.be/bad'' then ([hook_quarter], Inl (Other ''HTTP Error 403''), d)
        else ([], Inr ''/dl/good.mp4'', insert ''/dl/good.mp4'' d)),
      subprocess_run = (\<lambda>cmd d. (Inr 0, insert (last cmd) d)),
      remove_denied = (\<lambda>p. None),
      ydl_subs = (\<lambda>u yo d. (None, d))\<rparr>"

definition app0 :: app where
  "app0 =
     \<lparr>tasks_q = [], workers = [], history = [], history_file = [], history_writable = True,
      clock = 0, url_var = [], quality_var = ''best'', save_folder_var = ''/home/user/Downloads'',
      start_var = [], end_var = [], audio_only_var = False, convert_mp3_var = False,
      subs_var = False, subs_lang_var = ''en'', estimate_label_var = No_estimate,
      status_var = Text ''Ready'', progress_var = 0, queue_listbox = [], history_listbox = [],
      log_area = [], dialogs = [], callback_errors = []\<rparr>"

definition app_ticked :: app where
  "app_ticked = app0\<lparr>url_var := '' https://youtu.be/x '', audio_only_var := True\<rparr>"

definition app_unticked :: app where
  "app_unticked = on_audio_toggle ((on_audio_toggle app_ticked)\<lparr>audio_only_var := False\<rparr>)"

definition opts_audio :: opts where
  "opts_audio =
     \<lparr>quality = ''audio'', save_folder = ''/home/user/Downloads'', start = [], end_ts = [],
      audio_only = False, convert_mp3 = False, subs = False, subs_lang = ''en'',
      noplaylist = True\<rparr>"

section \<open>Facts about the builtins\<close>

lemma strip_unchanged:
  assumes "s \<noteq> []" "\<not> isspace (hd s)" "\<not> isspace (last s)"
  shows "strip s = s"
proof -
  have "dropWhile isspace s = s"
    using assms by (simp add: dropWhile_eq_self_iff)
  moreover have "dropWhile isspace (rev s) = rev s"
    using assms by (simp add: dropWhile_eq_self_iff hd_rev)
  ultimately show ?thesis by (simp add: strip_def)
qed

lemma strip_ends:
  assumes ne: "strip s \<noteq> []"
  shows "\<not> isspace (hd (strip s)) \<and> \<not> isspace (last (strip s))"
proof -
  let ?t = "dropWhile isspace s"
  let ?u = "dropWhile isspace (rev ?t)"
  from ne have u: "?u \<noteq> []" by (simp add: strip_def)
  then have t: "?t \<noteq> []" by (cases "?t = []") simp_all
  have 1: "\<not> isspace (hd ?u)" using u by (rule hd_dropWhile)
  have 2: "\<not> isspace (hd ?t)" using t by (rule hd_dropWhile)
  have "last (strip s) = hd ?u" using u by (simp add: strip_def last_rev)
  moreover have "hd (strip s) = hd ?t"
  proof -
    have "hd (rev ?u) = last ?u" using u by (simp add: hd_rev)
    also have "\<dots> = last (rev ?t)"
      using u by (metis last_appendR takeWhile_dropWhile_id)
    also have "\<dots> = hd ?t" using t by (simp add: last_rev)
    finally show ?thesis by (simp add: strip_def)
  qed
  ultimately show ?thesis using 1 2 by simp
qed

lemma strip_strip: "strip (strip s) = strip s"
proof (cases "strip s = []")
  case True
  moreover have "strip [] = []" by (simp add: strip_def)
  ultimately show ?thesis by simp
next
  case False
  then show ?thesis using strip_ends [OF False] by (simp add: strip_unchanged)
qed

lemma underscore_not_digit: "\<not> is_ascii_digit (CHR ''_'')"
  by (simp add: is_ascii_digit_def)

lemma digit_not_underscore: "is_ascii_digit c \<Longrightarrow> c \<noteq> CHR ''_''"
  using underscore_not_digit by blast

lemma drop_underscores_digits:
  "list_all is_ascii_digit s \<Longrightarrow> prev \<noteq> CHR ''_'' \<Longrightarrow> drop_underscores prev s = Some s"
proof (induction s arbitrary: prev)
  case Nil
  then show ?case by simp
next
  case (Cons c cs)
  from Cons.prems(1) have c: "c \<noteq> CHR ''_''" and cs: "list_all is_ascii_digit cs"
    by (simp_all add: digit_not_underscore)
  have "drop_underscores c cs = Some cs"
    using cs c by (rule Cons.IH)
  then show ?case
    using c Cons.prems(2) by (simp only: drop_underscores.simps if_False simp_thms option.map)
qed

lemma sign_not_digit: "\<not> is_ascii_digit (CHR ''-'')" "\<not> is_ascii_digit (CHR ''+'')"
  by (simp_all add: is_ascii_digit_def)

lemma split_sign_digits:
  assumes "s \<noteq> []" "list_all is_ascii_digit s"
  shows "split_sign s = (False, s)"
proof (cases s)
  case Nil
  with assms show ?thesis by simp
next
  case (Cons c cs)
  with assms(2) have "is_ascii_digit c" by simp
  then have "c \<noteq> CHR ''-''" "c \<noteq> CHR ''+''"
    using sign_not_digit by blast+
  then show ?thesis
    unfolding split_sign_def Cons list.case by (simp only: if_False)
qed

lemma lower_char_digit: "is_ascii_digit c \<Longrightarrow> lower_char c = c"
  by (simp add: lower_char_def is_ascii_digit_def Let_def)

lemma lower_digits: "list_all is_ascii_digit s \<Longrightarrow> lower s = s"
  by (induction s) (simp_all add: lower_def lower_char_digit)

lemma letter_not_digit: "\<not> is_ascii_digit (CHR ''i'')" "\<not> is_ascii_digit (CHR ''n'')"
  by (simp_all add: is_ascii_digit_def)

lemma digits_no_word:
  assumes "list_all is_ascii_digit s"
  shows "s \<noteq> ''inf''" "s \<noteq> ''infinity''" "s \<noteq> ''nan''"
  using assms letter_not_digit by auto

lemma parse_decimal_digits:
  assumes ne: "s \<noteq> []" and d: "list_all is_ascii_digit s"
  shows "parse_decimal s = Some (dec_value s, 1)"
proof -
  from d have t: "takeWhile is_ascii_digit s = s" and dr: "dropWhile is_ascii_digit s = []"
    by (simp_all add: list_all_iff)
  show ?thesis
    using ne by (simp add: parse_decimal_def t dr parse_exponent_def del: One_nat_def)
qed

lemma round_half_even_one: "round_half_even a 1 = a"
  by (simp add: round_half_even_def)

lemma floor_log2_one:
  assumes "0 < p"
  shows "floor_log2 p 1 = int (floorlog 2 p) - 1"
proof -
  have f1: "floorlog 2 (1::nat) = (1::nat)"
    by (subst compute_floorlog) (simp add: floorlog_eq_zero_iff del: One_nat_def)
  have pos: "0 < floorlog 2 p" using assms by (simp add: floorlog_def)
  have "2 ^ (floorlog 2 p - 1) \<le> p" using floorlog_bounds [of p 2] assms by simp
  moreover have "nat (int (floorlog 2 p) - 1) = floorlog 2 p - 1" by simp
  moreover have "nat (- (int (floorlog 2 p) - 1)) = 0" using pos by simp
  ultimately show ?thesis by (simp add: floor_log2_def f1 del: of_nat_diff One_nat_def)
qed

lemma double_trunc_small:
  assumes "p \<noteq> 0" "- 1 \<le> floor_log2 p 1" "floor_log2 p 1 < 52"
  shows "double_trunc p 1 = Some p"
proof -
  define j where "j = nat (52 - floor_log2 p 1)"
  have "round_half_even (p * 2 ^ j) 1 div 2 ^ j = p"
    by (simp only: round_half_even_one) simp
  then show ?thesis
    using assms unfolding double_trunc_def Let_def j_def
    by (simp only: if_False if_True not_less) simp
qed

lemma double_trunc_52:
  assumes "p \<noteq> 0" "floor_log2 p 1 = 52" "p < 2 ^ 53"
  shows "double_trunc p 1 = Some p"
proof -
  have "(2::nat) ^ 53 \<le> 2 ^ 1024"
    by (rule power_increasing) simp_all
  then have big: "\<not> 2 ^ 1024 \<le> p"
    using assms(3) by linarith
  have "round_half_even p (1 * 2 ^ nat (52 - 52)) * 2 ^ nat (52 - 52) = p"
    by (simp add: round_half_even_one del: One_nat_def)
  with big show ?thesis
    using assms(1,2) unfolding double_trunc_def Let_def
    by (simp only: if_False if_True) (simp del: power_numeral One_nat_def)
qed

lemma double_trunc_exact:
  assumes "p < 2 ^ 53"
  shows "double_trunc p 1 = Some p"
proof (cases "p = 0")
  case True
  then show ?thesis by (simp add: double_trunc_def)
next
  case False
  then have pos: "0 < p" by simp
  have "floorlog 2 p \<le> 53" using assms by (intro floorlog_leI) simp_all
  moreover have "0 < floorlog 2 p" using pos by (simp add: floorlog_def)
  ultimately have k: "0 \<le> floor_log2 p 1" "floor_log2 p 1 \<le> 52"
    by (simp_all add: floor_log2_one [OF pos] del: One_nat_def)
  show ?thesis
  proof (cases "floor_log2 p 1 < 52")
    case True
    with k False show ?thesis by (intro double_trunc_small) simp_all
  next
    case False
    with k have "floor_log2 p 1 = 52" by simp
    with \<open>p \<noteq> 0\<close> assms show ?thesis by (intro double_trunc_52)
  qed
qed

lemma int_float_digits:
  assumes ne: "s \<noteq> []" and d: "list_all is_ascii_digit s"
    and small: "dec_value s < 2 ^ 53"
  shows "int_float s = Inr (int (dec_value s))"
proof -
  have 1: "drop_underscores (CHR 0x00) s = Some s"
    using d by (rule drop_underscores_digits) simp
  have 2: "split_sign s = (False, s)"
    using ne d by (rule split_sign_digits)
  have 3: "lower s = s"
    using d by (rule lower_digits)
  have 5: "parse_decimal s = Some (dec_value s, 1)"
    using ne d by (rule parse_decimal_digits)
  have 6: "double_trunc (dec_value s) 1 = Some (dec_value s)"
    using small by (rule double_trunc_exact)
  show ?thesis
    unfolding int_float_def 1 option.case 2 Let_def prod.case 3 5 6
    using digits_no_word [OF d] by (simp only: if_False simp_thms)
qed


lemma strip_all_space:
  assumes "list_all isspace s"
  shows "strip s = []"
proof -
  have "dropWhile isspace s = []"
    using assms by (induction s) simp_all
  then show ?thesis by (simp only: strip_def rev.simps dropWhile.simps)
qed

lemma of_char_digit_char: "d < 10 \<Longrightarrow> (of_char (digit_char d) :: nat) = 48 + d"
  by (simp add: digit_char_def)

lemma is_ascii_digit_digit_char: "d < 10 \<Longrightarrow> is_ascii_digit (digit_char d)"
  by (simp add: is_ascii_digit_def of_char_digit_char)

lemma digit_not_space: "is_ascii_digit c \<Longrightarrow> \<not> isspace c"
  by (auto simp: is_ascii_digit_def isspace_def Let_def)

lemma digit_not_colon: "is_ascii_digit c \<Longrightarrow> c \<noteq> CHR '':''"
proof
  assume "is_ascii_digit c" "c = CHR '':''"
  then have "is_ascii_digit (CHR '':'')" by simp
  then show False by (simp add: is_ascii_digit_def)
qed

lemma str_nat_digits: "str_nat n \<noteq> [] \<and> list_all is_ascii_digit (str_nat n)"
proof (induction n rule: str_nat.induct)
  case (1 n)
  show ?case
  proof (cases "n < 10")
    case True
    then show ?thesis by (subst (1 2) str_nat.simps) (simp add: is_ascii_digit_digit_char)
  next
    case False
    then show ?thesis using 1 by (subst (1 2) str_nat.simps) (simp add: is_ascii_digit_digit_char)
  qed
qed

lemma digits_ends:
  assumes "s \<noteq> []" "list_all is_ascii_digit s"
  shows "is_ascii_digit (hd s)" "is_ascii_digit (last s)"
  using assms by (simp_all add: list_all_iff)

lemma minus_not_space: "\<not> isspace (CHR ''-'')"
  by (simp add: isspace_def)

lemma zero_digit: "is_ascii_digit (CHR ''0'')"
  by (simp add: is_ascii_digit_def)

lemma fmt_02d_ends:
  "fmt_02d n \<noteq> [] \<and> \<not> isspace (hd (fmt_02d n)) \<and> \<not> isspace (last (fmt_02d n))"
proof -
  let ?d = "str_nat (nat \<bar>n\<bar>)"
  have d: "?d \<noteq> []" "list_all is_ascii_digit ?d"
    using str_nat_digits [of "nat \<bar>n\<bar>"] by simp_all
  have l: "\<not> isspace (last ?d)" and h: "\<not> isspace (hd ?d)"
    using digits_ends [OF d] by (simp_all add: digit_not_space)
  consider "n < 0" | "0 \<le> n" "n < 10" | "10 \<le> n" by linarith
  then show ?thesis
  proof cases
    case 1
    then have "fmt_02d n = CHR ''-'' # ?d" by (simp add: fmt_02d_def abs_if)
    then show ?thesis using d l by (simp add: minus_not_space)
  next
    case 2
    then have "fmt_02d n = CHR ''0'' # ?d" by (simp add: fmt_02d_def abs_if)
    then show ?thesis using d l by (simp add: digit_not_space [OF zero_digit])
  next
    case 3
    then have "fmt_02d n = ?d" by (simp add: fmt_02d_def abs_if)
    then show ?thesis using d l h by simp
  qed
qed

lemma hms_fixed:
  fixes h m s :: int
  defines "r \<equiv> fmt_02d h @ '':'' @ fmt_02d m @ '':'' @ fmt_02d s"
  shows "strip r = r" "CHR '':'' \<in> set r" "r \<noteq> []"
proof -
  have "hd r = hd (fmt_02d h)" "last r = last (fmt_02d s)"
    using fmt_02d_ends [of h] fmt_02d_ends [of s] by (simp_all add: r_def)
  then have "\<not> isspace (hd r)" "\<not> isspace (last r)"
    using fmt_02d_ends [of h] fmt_02d_ends [of s] by simp_all
  moreover show "r \<noteq> []" by (simp add: r_def)
  ultimately show "strip r = r" by (simp add: strip_unchanged)
  show "CHR '':'' \<in> set r" by (simp add: r_def)
qed

section \<open>Trim marks: \<^verbatim>\<open>normalize\<close>\<close>

lemma normalize_colon: "CHR '':'' \<in> set (strip ts) \<Longrightarrow> normalize ts = Some (strip ts)"
  by (auto simp: normalize_def Let_def)

lemma normalize_fixed:
  assumes "normalize ts = Some r"
  shows "normalize r = Some r"
proof (cases "CHR '':'' \<in> set (strip ts)")
  case True
  then have "r = strip ts" using assms by (simp add: normalize_colon)
  then show ?thesis using True by (simp add: normalize_colon strip_strip)
next
  case False
  from assms have ne: "strip ts \<noteq> []"
    by (auto simp: normalize_def Let_def)
  from assms False ne obtain n where "int_float (strip ts) = Inr n"
    and r: "r = fmt_02d (n div 3600) @ '':'' @ fmt_02d (n mod 3600 div 60) @ '':'' @ fmt_02d (n mod 60)"
    by (auto simp: normalize_def Let_def split: sum.splits)
  have "strip r = r" "CHR '':'' \<in> set r"
    unfolding r by (rule hms_fixed)+
  then show ?thesis using normalize_colon [of r] by simp
qed

lemma normalize_digits:
  assumes "s \<noteq> []" "list_all is_ascii_digit s" "dec_value s < 2 ^ 53"
  shows "normalize s =
     Some (fmt_02d (int (dec_value s) div 3600) @ '':'' @
           fmt_02d (int (dec_value s) mod 3600 div 60) @ '':'' @
           fmt_02d (int (dec_value s) mod 60))"
proof -
  have "strip s = s"
    using assms(1,2) digits_ends [of s] by (simp add: strip_unchanged digit_not_space)
  moreover have "CHR '':'' \<notin> set s"
    using assms(2) digit_not_colon by (auto simp: list_all_iff)
  moreover have "int_float s = Inr (int (dec_value s))"
    using assms by (rule int_float_digits)
  ultimately show ?thesis
    using assms(1) by (simp add: normalize_def Let_def del: power_numeral)
qed

lemma fmt_02d_two_digits:
  assumes "0 \<le> n" "n < 100"
  shows "length (fmt_02d n) = 2" "list_all is_ascii_digit (fmt_02d n)"
proof -
  have small: "k < 10 \<Longrightarrow> str_nat k = [digit_char k]" for k
    by (subst str_nat.simps) simp
  have two: "10 \<le> k \<Longrightarrow> k < 100 \<Longrightarrow> str_nat k = [digit_char (k div 10), digit_char (k mod 10)]" for k
    by (subst str_nat.simps) (simp add: small)
  show "length (fmt_02d n) = 2"
    using assms by (cases "n < 10") (simp_all add: fmt_02d_def small two)
  show "list_all is_ascii_digit (fmt_02d n)"
    using assms str_nat_digits [of "nat n"] by (simp add: fmt_02d_def zero_digit)
qed

lemma normalize_unchanged:
  assumes c: "CHR '':'' \<in> set t" and h: "\<not> isspace (hd t)" and l: "\<not> isspace (last t)"
  shows "normalize t = Some t"
proof -
  have "t \<noteq> []"
  proof
    assume "t = []"
    with c show False by simp
  qed
  then have "strip t = t" using h l by (rule strip_unchanged)
  then show ?thesis using c normalize_colon [of t] by (simp only:)
qed

lemma normalize_90: "normalize ''90'' = Some ''00:01:30''"
proof -
  have v: "dec_value ''90'' = 90" by code_simp
  have "''90'' \<noteq> []" "list_all is_ascii_digit ''90''" "dec_value ''90'' < 2 ^ 53"
    by (simp_all add: v is_ascii_digit_def)
  then have "normalize ''90'' =
     Some (fmt_02d (int (dec_value ''90'') div 3600) @ '':'' @
           fmt_02d (int (dec_value ''90'') mod 3600 div 60) @ '':'' @
           fmt_02d (int (dec_value ''90'') mod 60))"
    by (rule normalize_digits)
  also have "\<dots> = Some ''00:01:30''"
    unfolding v by code_simp
  finally show ?thesis .
qed

lemma normalize_general:
  assumes "strip ts \<noteq> []" "CHR '':'' \<notin> set (strip ts)" "int_float (strip ts) = Inr n"
  shows "normalize ts =
     Some (fmt_02d (n div 3600) @ '':'' @ fmt_02d (n mod 3600 div 60) @ '':'' @ fmt_02d (n mod 60))"
  using assms by (simp add: normalize_def Let_def)

text \<open>
  Claim C7, amended. \<^verbatim>\<open>normalize\<close> strips its argument first. A mark with a colon is
  returned stripped of its surrounding whitespace: unchanged when it has none, as an
  \<^verbatim>\<open>HH:MM:SS\<close> string has none; and every result of \<^verbatim>\<open>normalize\<close> is a fixed point of
  it. Every other mark on which \<^verbatim>\<open>int(float(s))\<close> succeeds, with the value \<open>n\<close>, becomes the
  hours, minutes and seconds of \<open>n\<close>, each printed by the format \<^verbatim>\<open>02d\<close>: plain digits, and
  also what else \<^verbatim>\<open>float\<close> reads (blanks around the number, a sign, a fraction, an
  exponent). On a string of decimal digits below \<open>2\<^sup>5\<^sup>3\<close> the value \<open>n\<close> is the number written;
  \<^verbatim>\<open>normalize("90")\<close> is \<^verbatim>\<open>"00:01:30"\<close>.
\<close>

theorem normalize_marks:
  "(CHR '':'' \<in> set (strip ts) \<longrightarrow> normalize ts = Some (strip ts)) \<and>
   (CHR '':'' \<in> set t \<and> \<not> isspace (hd t) \<and> \<not> isspace (last t) \<longrightarrow> normalize t = Some t) \<and>
   (normalize ts = Some r \<longrightarrow> normalize r = Some r) \<and>
   (strip m \<noteq> [] \<and> CHR '':'' \<notin> set (strip m) \<and> int_float (strip m) = Inr n \<longrightarrow>
      normalize m =
        Some (fmt_02d (n div 3600) @ '':'' @ fmt_02d (n mod 3600 div 60) @ '':'' @
              fmt_02d (n mod 60))) \<and>
   (s \<noteq> [] \<and> list_all is_ascii_digit s \<and> dec_value s < 2 ^ 53 \<longrightarrow>
      int_float s = Inr (int (dec_value s)) \<and>
      normalize s =
        Some (fmt_02d (int (dec_value s) div 3600) @ '':'' @
              fmt_02d (int (dec_value s) mod 3600 div 60) @ '':'' @
              fmt_02d (int (dec_value s) mod 60))) \<and>
   normalize ''90'' = Some ''00:01:30''"
proof (intro conjI impI)
  show "normalize ts = Some (strip ts)" if "CHR '':'' \<in> set (strip ts)"
    using that by (rule normalize_colon)
  show "normalize t = Some t"
    if "CHR '':'' \<in> set t \<and> \<not> isspace (hd t) \<and> \<not> isspace (last t)"
    using that by (elim conjE) (rule normalize_unchanged; assumption)
  show "normalize r = Some r" if "normalize ts = Some r"
    using that by (rule normalize_fixed)
  show "normalize m =
        Some (fmt_02d (n div 3600) @ '':'' @ fmt_02d (n mod 3600 div 60) @ '':'' @
              fmt_02d (n mod 60))"
    if "strip m \<noteq> [] \<and> CHR '':'' \<notin> set (strip m) \<and> int_float (strip m) = Inr n"
    using that by (elim conjE) (rule normalize_general; assumption)
  assume d: "s \<noteq> [] \<and> list_all is_ascii_digit s \<and> dec_value s < 2 ^ 53"
  show "int_float s = Inr (int (dec_value s))"
    using d by (elim conjE) (rule int_float_digits; assumption)
  show "normalize s =
        Some (fmt_02d (int (dec_value s) div 3600) @ '':'' @
              fmt_02d (int (dec_value s) mod 3600 div 60) @ '':'' @
              fmt_02d (int (dec_value s) mod 60))"
    using d by (elim conjE) (rule normalize_digits; assumption)
next
  show "normalize ''90'' = Some ''00:01:30''"
    by (rule normalize_90)
qed

lemma int_float_fraction: "int_float ''1.5'' = Inr 1"
proof -
  have 1: "drop_underscores (CHR 0x00) ''1.5'' = Some ''1.5''" by code_simp
  have 2: "split_sign ''1.5'' = (False, ''1.5'')" by code_simp
  have 3: "lower ''1.5'' = ''1.5''" by code_simp
  have 4: "parse_decimal ''1.5'' = Some (15, 10)" by code_simp
  have 5: "floor_log2 15 10 = 0" by code_simp
  have 6: "double_trunc 15 10 = Some 1"
    by (simp add: double_trunc_def 5 round_half_even_def)
  show ?thesis
    by (simp add: int_float_def 1 2 3 4 6)
qed

lemma int_float_exponent: "int_float ''1e3'' = Inr 1000"
proof -
  have 1: "drop_underscores (CHR 0x00) ''1e3'' = Some ''1e3''" by code_simp
  have 2: "split_sign ''1e3'' = (False, ''1e3'')" by code_simp
  have 3: "lower ''1e3'' = ''1e3''" by code_simp
  have 4: "parse_decimal ''1e3'' = Some (1 * 10 ^ 3, 1)" by code_simp
  have 5: "double_trunc 1000 1 = Some 1000"
    by (rule double_trunc_exact) simp
  show ?thesis
    using 5 by (simp add: int_float_def 1 2 3 4)
qed

text \<open>
  The theorem at a padded mark with a colon, at \<^verbatim>\<open>"00:01:30"\<close>, at the padded fraction
  \<^verbatim>\<open>" 1.5 "\<close>, at \<^verbatim>\<open>"1e3"\<close> and at \<^verbatim>\<open>"3725"\<close>.
\<close>

theorem normalize_marks_witness:
  "CHR '':'' \<in> set (strip '' 1:30 '') \<and> normalize '' 1:30 '' = Some ''1:30'' \<and>
   normalize ''00:01:30'' = Some ''00:01:30'' \<and>
   strip '' 1.5 '' = ''1.5'' \<and> int_float ''1.5'' = Inr 1 \<and>
   normalize '' 1.5 '' = Some ''00:00:01'' \<and>
   normalize ''1e3'' = Some ''00:16:40'' \<and>
   int_float ''3725'' = Inr 3725 \<and>
   normalize ''3725'' = Some ''01:02:05'' \<and> normalize ''01:02:05'' = Some ''01:02:05''"
proof -
  have a: "CHR '':'' \<in> set (strip '' 1:30 '')" by code_simp
  have b: "strip '' 1:30 '' = ''1:30''" by code_simp
  have c: "CHR '':'' \<in> set ''00:01:30'' \<and> \<not> isspace (hd ''00:01:30'') \<and> \<not> isspace (last ''00:01:30'')"
    by code_simp
  have v: "dec_value ''3725'' = 3725" by code_simp
  have d: "''3725'' \<noteq> [] \<and> list_all is_ascii_digit ''3725'' \<and> dec_value ''3725'' < 2 ^ 53"
    by (simp add: v is_ascii_digit_def)
  have e: "fmt_02d (int (dec_value ''3725'') div 3600) @ '':'' @
           fmt_02d (int (dec_value ''3725'') mod 3600 div 60) @ '':'' @
           fmt_02d (int (dec_value ''3725'') mod 60) = ''01:02:05''"
    unfolding v by code_simp
  have f: "strip '' 1.5 '' = ''1.5''" by code_simp
  have g: "strip '' 1.5 '' \<noteq> [] \<and> CHR '':'' \<notin> set (strip '' 1.5 '') \<and>
           int_float (strip '' 1.5 '') = Inr 1"
    unfolding f using int_float_fraction by simp
  have g': "fmt_02d (1 div 3600) @ '':'' @ fmt_02d (1 mod 3600 div 60) @ '':'' @
            fmt_02d (1 mod 60) = ''00:00:01''"
    by code_simp
  have k: "strip ''1e3'' = ''1e3''" by code_simp
  have l: "strip ''1e3'' \<noteq> [] \<and> CHR '':'' \<notin> set (strip ''1e3'') \<and>
           int_float (strip ''1e3'') = Inr 1000"
    unfolding k using int_float_exponent by simp
  have l': "fmt_02d (1000 div 3600) @ '':'' @ fmt_02d (1000 mod 3600 div 60) @ '':'' @
            fmt_02d (1000 mod 60) = ''00:16:40''"
    by code_simp
  note n = normalize_marks [where ts = "'' 1:30 ''" and t = "''00:01:30''" and r = "''01:02:05''"
      and m = "'' 1.5 ''" and n = 1 and s = "''3725''"]
  note n2 = normalize_marks [where ts = "''3725''" and t = "''00:01:30''" and r = "''01:02:05''"
      and m = "''1e3''" and n = 1000 and s = "''3725''"]
  have 1: "normalize '' 1:30 '' = Some ''1:30''"
    using n [THEN conjunct1, THEN mp, OF a] unfolding b .
  have 2: "normalize ''00:01:30'' = Some ''00:01:30''"
    using n [THEN conjunct2, THEN conjunct1, THEN mp, OF c] .
  have 3: "normalize '' 1.5 '' = Some ''00:00:01''"
    using n [THEN conjunct2, THEN conjunct2, THEN conjunct2, THEN conjunct1, THEN mp, OF g]
    unfolding g' .
  have 4: "normalize ''1e3'' = Some ''00:16:40''"
    using n2 [THEN conjunct2, THEN conjunct2, THEN conjunct2, THEN conjunct1, THEN mp, OF l]
    unfolding l' .
  note dg = n [THEN conjunct2, THEN conjunct2, THEN conjunct2, THEN conjunct2, THEN conjunct1,
      THEN mp, OF d]
  have 5: "int_float ''3725'' = Inr 3725"
    using dg [THEN conjunct1] unfolding v by simp
  have 6: "normalize ''3725'' = Some ''01:02:05''"
    using dg [THEN conjunct2] unfolding e .
  have 7: "normalize ''01:02:05'' = Some ''01:02:05''"
    using n2 [THEN conjunct2, THEN conjunct2, THEN conjunct1, THEN mp, OF 6] .
  from a 1 2 f int_float_fraction 3 4 5 6 7 show ?thesis by (intro conjI)
qed

text \<open>
  Claim C7 as stated fails: a string with a colon and a leading blank is not returned
  unchanged.
\<close>

theorem normalize_strips_counterexample:
  "CHR '':'' \<in> set '' 00:01:30'' \<and> normalize '' 00:01:30'' = Some ''00:01:30'' \<and>
   normalize '' 00:01:30'' \<noteq> Some '' 00:01:30''"
  by code_simp

lemma normalize_blank: "list_all isspace ts \<Longrightarrow> normalize ts = None"
  by (simp add: normalize_def strip_all_space)

lemma normalize_unparseable:
  assumes "CHR '':'' \<notin> set (strip ts)" "int_float (strip ts) = Inl e"
  shows "normalize ts = None"
  using assms by (simp add: normalize_def Let_def)

lemma normalize_abc: "normalize ''abc'' = None"
  by code_simp

lemma normalize_not_empty: "normalize ts \<noteq> Some []"
proof
  assume "normalize ts = Some []"
  then have "normalize [] = Some []" by (rule normalize_fixed)
  moreover have "normalize [] = None" by (rule normalize_blank) simp
  ultimately show False by simp
qed

text \<open>
  Claim C9. A mark that is empty or all whitespace, and a mark without a colon on which
  \<^verbatim>\<open>int(float(s))\<close> raises (as on \<^verbatim>\<open>"abc"\<close>), normalizes to \<^verbatim>\<open>None\<close>; the trim command
  then has no \<^verbatim>\<open>-ss\<close> (no \<^verbatim>\<open>-to\<close>) flag. \<^verbatim>\<open>normalize\<close> has a value on every string: its
  bare \<^verbatim>\<open>except\<close> lets no exception out.
\<close>

theorem normalize_none:
  "(list_all isspace ts \<longrightarrow> normalize ts = None) \<and>
   (CHR '':'' \<notin> set (strip ts') \<and> int_float (strip ts') = Inl e \<longrightarrow> normalize ts' = None) \<and>
   normalize ''abc'' = None \<and>
   (normalize (start opts) = None \<longrightarrow>
      trim_cmd opts f = [FFMPEG_CMD, ''-y'', ''-i'', f] @ opt_flag ''-to'' (normalize (end_ts opts))) \<and>
   (normalize (end_ts opts) = None \<longrightarrow>
      trim_cmd opts f = [FFMPEG_CMD, ''-y'', ''-i'', f] @ opt_flag ''-ss'' (normalize (start opts)))"
proof (intro conjI impI)
  show "normalize ts = None" if "list_all isspace ts"
    using that by (rule normalize_blank)
  show "normalize ts' = None"
    if "CHR '':'' \<notin> set (strip ts') \<and> int_float (strip ts') = Inl e"
    using normalize_unparseable [OF conjunct1 [OF that] conjunct2 [OF that]] .
  show "normalize ''abc'' = None"
    by (rule normalize_abc)
  show "trim_cmd opts f = [FFMPEG_CMD, ''-y'', ''-i'', f] @ opt_flag ''-to'' (normalize (end_ts opts))"
    if "normalize (start opts) = None"
    using that by (simp add: trim_cmd_def opt_flag_def)
  show "trim_cmd opts f = [FFMPEG_CMD, ''-y'', ''-i'', f] @ opt_flag ''-ss'' (normalize (start opts))"
    if "normalize (end_ts opts) = None"
    using that by (simp add: trim_cmd_def opt_flag_def)
qed

text \<open>The theorem at a blank mark, at \<^verbatim>\<open>"1.5x"\<close>, and at two tasks with one bad mark each.\<close>

theorem normalize_none_witness:
  "list_all isspace ''  '' \<and> normalize ''  '' = None \<and>
   CHR '':'' \<notin> set (strip ''1.5x'') \<and> int_float (strip ''1.5x'') = Inl ValueError \<and>
   normalize ''1.5x'' = None \<and>
   normalize (start opts_bad_start) = None \<and>
   trim_cmd opts_bad_start ''/dl/v.mp4'' = [''ffmpeg'', ''-y'', ''-i'', ''/dl/v.mp4'', ''-to'', ''00:01:30''] \<and>
   normalize (end_ts opts_blank_end) = None \<and>
   trim_cmd opts_blank_end ''/dl/v.mp4'' = [''ffmpeg'', ''-y'', ''-i'', ''/dl/v.mp4'', ''-ss'', ''0:10'']"
proof -
  have a: "list_all isspace ''  ''" by code_simp
  have b: "CHR '':'' \<notin> set (strip ''1.5x'') \<and> int_float (strip ''1.5x'') = Inl ValueError"
    by code_simp
  have s1: "start opts_bad_start = ''abc''" and e1: "end_ts opts_bad_start = ''90''"
    and s2: "start opts_blank_end = ''0:10''" and e2: "end_ts opts_blank_end = ''  ''"
    by (simp_all add: opts_bad_start_def opts_blank_end_def)
  have n0: "normalize ''0:10'' = Some ''0:10''" by code_simp
  note n1 = normalize_none [of "''  ''" "''1.5x''" ValueError opts_bad_start "''/dl/v.mp4''"]
  note n2 = normalize_none [of "''  ''" "''1.5x''" ValueError opts_blank_end "''/dl/v.mp4''"]
  have 1: "normalize ''  '' = None"
    using n1 [THEN conjunct1, THEN mp, OF a] .
  have 2: "normalize ''1.5x'' = None"
    using n1 [THEN conjunct2, THEN conjunct1, THEN mp, OF b] .
  have 3: "normalize (start opts_bad_start) = None"
    unfolding s1 using n1 [THEN conjunct2, THEN conjunct2, THEN conjunct1] .
  have 4: "trim_cmd opts_bad_start ''/dl/v.mp4'' =
      [''ffmpeg'', ''-y'', ''-i'', ''/dl/v.mp4'', ''-to'', ''00:01:30'']"
    using n1 [THEN conjunct2, THEN conjunct2, THEN conjunct2, THEN conjunct1, THEN mp, OF 3]
    by (simp add: e1 normalize_90 opt_flag_def FFMPEG_CMD_def)
  have 5: "normalize (end_ts opts_blank_end) = None"
    unfolding e2 by (rule 1)
  have 6: "trim_cmd opts_blank_end ''/dl/v.mp4'' =
      [''ffmpeg'', ''-y'', ''-i'', ''/dl/v.mp4'', ''-ss'', ''0:10'']"
    using n2 [THEN conjunct2, THEN conjunct2, THEN conjunct2, THEN conjunct2, THEN mp, OF 5]
    by (simp add: s2 n0 opt_flag_def FFMPEG_CMD_def)
  from a 1 b 2 3 4 5 6 show ?thesis by (intro conjI) (simp_all only: simp_thms)
qed

section \<open>The stages, case by case\<close>

lemma remove_and_switch_cases:
  obtains (kept) e where
      "os_remove env (out_file ps) d = Inl e"
      "remove_and_switch env msg new d ev ps =
         ps\<lparr>disk := d, events := ev @ [Os_remove (out_file ps) (Some e), Direct (Log msg (Some e))]\<rparr>"
  | (switched) d' where
      "os_remove env (out_file ps) d = Inr d'"
      "remove_and_switch env msg new d ev ps =
         ps\<lparr>out_file := new, disk := d', events := ev @ [Os_remove (out_file ps) None]\<rparr>"
  by (cases "os_remove env (out_file ps) d") (simp_all add: remove_and_switch_def)

lemma convert_stage_cases:
  obtains (skipped)
      "\<not> (audio_only opts \<and> convert_mp3 opts)"
      "convert_stage env opts ps = ps"
  | (failed) r d1 e where
      "audio_only opts" "convert_mp3 opts"
      "subprocess_run env (mp3_cmd (out_file ps)) (disk ps) = (r, d1)"
      "check (mp3_cmd (out_file ps)) r = Inl e"
      "convert_stage env opts ps =
         ps\<lparr>disk := d1,
            events := events ps @ [Subprocess_run (mp3_cmd (out_file ps)) r,
                                   Direct (Log ''MP3 conversion failed: '' (Some e))]\<rparr>"
  | (converted) d1 where
      "audio_only opts" "convert_mp3 opts"
      "subprocess_run env (mp3_cmd (out_file ps)) (disk ps) = (Inr 0, d1)"
      "convert_stage env opts ps =
         remove_and_switch env ''MP3 conversion failed: '' (mp3_path (out_file ps)) d1
           (events ps @ [Subprocess_run (mp3_cmd (out_file ps)) (Inr 0)]) ps"
proof (cases "audio_only opts \<and> convert_mp3 opts")
  case False
  moreover from False have "convert_stage env opts ps = ps"
    unfolding convert_stage_def by (rule if_not_P)
  ultimately show ?thesis by (rule skipped)
next
  case True
  obtain r d1 where run: "subprocess_run env (mp3_cmd (out_file ps)) (disk ps) = (r, d1)"
    by (cases "subprocess_run env (mp3_cmd (out_file ps)) (disk ps)")
  show ?thesis
  proof (cases "check (mp3_cmd (out_file ps)) r")
    case (Inl e)
    with True run show ?thesis
      by (intro failed [of r d1 e]) (simp_all add: convert_stage_def Let_def)
  next
    case (Inr rc)
    then have "r = Inr 0"
      by (cases r) (simp_all add: check_def split: if_splits)
    with True run show ?thesis
      by (intro converted [of d1]) (simp_all add: convert_stage_def check_def Let_def)
  qed
qed

lemma trim_stage_cases:
  obtains (skipped)
      "\<not> wants_trim opts"
      "trim_stage env opts ps = ps"
  | (not_started) e d1 where
      "wants_trim opts"
      "subprocess_run env (cmd_copy opts (out_file ps)) (disk ps) = (Inl e, d1)"
      "trim_stage env opts ps =
         ps\<lparr>disk := d1,
            events := events ps @ [Subprocess_run (cmd_copy opts (out_file ps)) (Inl e),
                                   Direct (Log ''Trim failed: '' (Some e))]\<rparr>"
  | (copied) d1 where
      "wants_trim opts"
      "subprocess_run env (cmd_copy opts (out_file ps)) (disk ps) = (Inr 0, d1)"
      "trim_stage env opts ps =
         remove_and_switch env ''Trim failed: '' (trimmed_path (out_file ps)) d1
           (events ps @ [Subprocess_run (cmd_copy opts (out_file ps)) (Inr 0)]) ps"
  | (both_failed) rc d1 r2 d2 e where
      "wants_trim opts"
      "subprocess_run env (cmd_copy opts (out_file ps)) (disk ps) = (Inr rc, d1)" "rc \<noteq> 0"
      "subprocess_run env (cmd_re opts (out_file ps)) d1 = (r2, d2)"
      "check (cmd_re opts (out_file ps)) r2 = Inl e"
      "trim_stage env opts ps =
         ps\<lparr>disk := d2,
            events := events ps @ [Subprocess_run (cmd_copy opts (out_file ps)) (Inr rc),
                                   Subprocess_run (cmd_re opts (out_file ps)) r2,
                                   Direct (Log ''Trim failed: '' (Some e))]\<rparr>"
  | (reencoded) rc d1 d2 where
      "wants_trim opts"
      "subprocess_run env (cmd_copy opts (out_file ps)) (disk ps) = (Inr rc, d1)" "rc \<noteq> 0"
      "subprocess_run env (cmd_re opts (out_file ps)) d1 = (Inr 0, d2)"
      "trim_stage env opts ps =
         remove_and_switch env ''Trim failed: '' (trimmed_path (out_file ps)) d2
           (events ps @ [Subprocess_run (cmd_copy opts (out_file ps)) (Inr rc),
                         Subprocess_run (cmd_re opts (out_file ps)) (Inr 0)]) ps"
proof (cases "wants_trim opts")
  case False
  moreover from False have "trim_stage env opts ps = ps"
    unfolding trim_stage_def by (rule if_not_P)
  ultimately show ?thesis by (rule skipped)
next
  case True
  let ?f = "out_file ps"
  obtain r1 d1 where run1: "subprocess_run env (cmd_copy opts ?f) (disk ps) = (r1, d1)"
    by (cases "subprocess_run env (cmd_copy opts ?f) (disk ps)")
  show ?thesis
  proof (cases r1)
    case (Inl e)
    with True run1 show ?thesis
      by (intro not_started [of e d1]) (simp_all add: trim_stage_def Let_def)
  next
    case (Inr rc)
    show ?thesis
    proof (cases "rc = 0")
      case True
      with \<open>wants_trim opts\<close> run1 Inr show ?thesis
        by (intro copied [of d1]) (simp_all add: trim_stage_def Let_def)
    next
      case False
      obtain r2 d2 where run2: "subprocess_run env (cmd_re opts ?f) d1 = (r2, d2)"
        by (cases "subprocess_run env (cmd_re opts ?f) d1")
      show ?thesis
      proof (cases "check (cmd_re opts ?f) r2")
        case (Inl e)
        with \<open>wants_trim opts\<close> run1 \<open>r1 = Inr rc\<close> False run2 show ?thesis
          by (intro both_failed [of rc d1 r2 d2 e]) (simp_all add: trim_stage_def Let_def)
      next
        case (Inr rc2)
        then have "r2 = Inr 0"
          by (cases r2) (simp_all add: check_def split: if_splits)
        with \<open>wants_trim opts\<close> run1 \<open>r1 = Inr rc\<close> False run2 show ?thesis
          by (intro reencoded [of rc d1 d2]) (simp_all add: trim_stage_def check_def Let_def)
      qed
    qed
  qed
qed

lemma subs_stage_cases:
  obtains (skipped) "\<not> subs opts" "subs_stage env u opts ps = ps"
  | (failed) e d1 where "subs opts"
      "ydl_subs env u (sub_opts opts) (disk ps) = (Some e, d1)"
      "subs_stage env u opts ps =
         ps\<lparr>disk := d1,
            events := events ps @ [Download_subs u (sub_opts opts),
                                   Direct (Log ''Sub download failed: '' (Some e))]\<rparr>"
  | (downloaded) d1 where "subs opts"
      "ydl_subs env u (sub_opts opts) (disk ps) = (None, d1)"
      "subs_stage env u opts ps =
         ps\<lparr>disk := d1, events := events ps @ [Download_subs u (sub_opts opts)]\<rparr>"
proof (cases "subs opts")
  case False
  moreover from False have "subs_stage env u opts ps = ps"
    unfolding subs_stage_def by (rule if_not_P)
  ultimately show ?thesis by (rule skipped)
next
  case True
  obtain r d1 where run: "ydl_subs env u (sub_opts opts) (disk ps) = (r, d1)"
    by (cases "ydl_subs env u (sub_opts opts) (disk ps)")
  show ?thesis
  proof (cases r)
    case None
    with True run show ?thesis by (intro downloaded [of d1]) (simp_all add: subs_stage_def Let_def)
  next
    case (Some e)
    with True run show ?thesis by (intro failed [of e d1]) (simp_all add: subs_stage_def Let_def)
  qed
qed

section \<open>Delivering the calls to the \<^verbatim>\<open>App\<close>\<close>

lemma deliver_append: "deliver (xs @ ys) a = deliver ys (deliver xs a)"
  by (induction xs a rule: deliver.induct) simp_all

lemma history_perform:
  "history (perform c a) = (case c of Add_history u f \<Rightarrow>
       \<lparr>item_time = clock a, item_url = u, item_file = f\<rparr> # history a | _ \<Rightarrow> history a)"
  by (cases c)
     (simp_all add: perform_def ui_log_def set_status_def update_progress_def add_history_def
        refresh_history_list_def save_history_def)

lemma progress_events:
  "ev \<in> set (progress d) \<Longrightarrow> (\<exists>pct. ev = Schedule (Update_progress pct)) \<or>
      (\<exists>txt. ev = Schedule (Set_status txt) \<and> txt \<noteq> Text ''Ready'')"
  by (auto simp: progress_def Let_def split: if_splits)

lemma hooks_events:
  assumes "ev \<in> set (concat (map progress hooks))"
  shows "(\<exists>pct. ev = Schedule (Update_progress pct)) \<or>
      (\<exists>txt. ev = Schedule (Set_status txt) \<and> txt \<noteq> Text ''Ready'')"
proof -
  from assms obtain d where "ev \<in> set (progress d)" by auto
  then show ?thesis by (rule progress_events)
qed

lemma deliver_hooks:
  "history (deliver (concat (map progress hooks)) a) = history a \<and>
   log_area (deliver (concat (map progress hooks)) a) = log_area a \<and>
   dialogs (deliver (concat (map progress hooks)) a) = dialogs a \<and>
   callback_errors (deliver (concat (map progress hooks)) a) = callback_errors a \<and>
   clock (deliver (concat (map progress hooks)) a) = clock a"
proof (induction hooks arbitrary: a)
  case Nil
  then show ?case by simp
next
  case (Cons d hooks)
  have "history (deliver (progress d) a) = history a \<and>
        log_area (deliver (progress d) a) = log_area a \<and>
        dialogs (deliver (progress d) a) = dialogs a \<and>
        callback_errors (deliver (progress d) a) = callback_errors a \<and>
        clock (deliver (progress d) a) = clock a"
    by (simp add: progress_def Let_def perform_def set_status_def update_progress_def)
  with Cons [of "deliver (progress d) a"] show ?case
    by (simp add: deliver_append)
qed

section \<open>The download\<close>

lemma fetch_stage_cases:
  obtains (failed) hooks e d1 where
      "ydl_download env u (ydl_opts opts) d0 = (hooks, Inl e, d1)"
      "fetch_stage env (u, opts) d0 =
         Inl ([Direct (Log (''Start: '' @ u) None),
               Schedule (Set_status (Text ''Downloading...'')),
               Extract_info u (ydl_opts opts)] @ concat (map progress hooks) @
              [Direct (Log ''Download failed: '' (Some e)),
               Schedule (Showerror ''Download failed'')], d1)"
  | (fetched) hooks f d1 where
      "ydl_download env u (ydl_opts opts) d0 = (hooks, Inr f, d1)"
      "fetch_stage env (u, opts) d0 =
         Inr \<lparr>out_file = f, disk = d1,
              events = [Direct (Log (''Start: '' @ u) None),
                        Schedule (Set_status (Text ''Downloading...'')),
                        Extract_info u (ydl_opts opts)] @ concat (map progress hooks)\<rparr>"
proof -
  obtain hooks r d1 where y: "ydl_download env u (ydl_opts opts) d0 = (hooks, r, d1)"
    by (cases "ydl_download env u (ydl_opts opts) d0")
  show thesis
  proof (cases r)
    case (Inl e)
    with y show ?thesis by (intro failed [of hooks e d1]) (simp_all add: fetch_stage_def)
  next
    case (Inr f)
    with y show ?thesis by (intro fetched [of hooks f d1]) (simp_all add: fetch_stage_def)
  qed
qed

lemma process_task_failed:
  assumes "ydl_download env u (ydl_opts opts) d0 = (hooks, Inl e, d1)"
  shows "process_task env (u, opts) d0 =
     ([Direct (Log (''Start: '' @ u) None),
       Schedule (Set_status (Text ''Downloading...'')),
       Extract_info u (ydl_opts opts)] @ concat (map progress hooks) @
      [Direct (Log ''Download failed: '' (Some e)),
       Schedule (Showerror ''Download failed'')], d1)"
  using assms by (simp add: process_task_def fetch_stage_def)

section \<open>The events of the stages\<close>

lemma quiet_deliver:
  "list_all quiet rest \<Longrightarrow>
     history (deliver rest a) = history a \<and> status_var (deliver rest a) = status_var a \<and>
     clock (deliver rest a) = clock a"
proof (induction rest arbitrary: a)
  case Nil
  then show ?case by simp
next
  case (Cons ev rest)
  from Cons.prems have q: "quiet ev" and rest: "list_all quiet rest" by simp_all
  have "deliver (ev # rest) a = deliver rest a \<or>
      (\<exists>msg e. deliver (ev # rest) a = deliver rest (ui_log msg e a))"
  proof (cases ev)
    case (Direct c)
    with q show ?thesis by (cases c) (auto simp: perform_def)
  next
    case (Schedule c)
    with q show ?thesis by simp
  qed simp_all
  then show ?case
    using Cons.IH [OF rest] by (auto simp: ui_log_def)
qed

lemma remove_and_switch_more:
  "\<exists>rest. events (remove_and_switch env msg nw d ev ps) = ev @ rest \<and> list_all quiet rest"
  by (cases rule: remove_and_switch_cases [of env ps d msg nw ev]) simp_all

lemma convert_stage_more:
  "\<exists>rest. events (convert_stage env opts ps) = events ps @ rest \<and> list_all quiet rest"
proof (cases rule: convert_stage_cases [of opts env ps])
  case skipped
  then show ?thesis by simp
next
  case (failed r d1 e)
  then show ?thesis by simp
next
  case (converted d1)
  obtain rest where
    "events (convert_stage env opts ps) =
       (events ps @ [Subprocess_run (mp3_cmd (out_file ps)) (Inr 0)]) @ rest" "list_all quiet rest"
    using remove_and_switch_more converted(4) by metis
  then show ?thesis by simp
qed

lemma trim_stage_more:
  "\<exists>rest. events (trim_stage env opts ps) = events ps @ rest \<and> list_all quiet rest"
proof (cases rule: trim_stage_cases [of opts env ps])
  case skipped
  then show ?thesis by simp
next
  case (not_started e d1)
  then show ?thesis by simp
next
  case (copied d1)
  obtain rest where
    "events (trim_stage env opts ps) =
       (events ps @ [Subprocess_run (cmd_copy opts (out_file ps)) (Inr 0)]) @ rest"
    "list_all quiet rest"
    using remove_and_switch_more copied(3) by metis
  then show ?thesis by simp
next
  case (both_failed rc d1 r2 d2 e)
  then show ?thesis by simp
next
  case (reencoded rc d1 d2)
  obtain rest where
    "events (trim_stage env opts ps) =
       (events ps @ [Subprocess_run (cmd_copy opts (out_file ps)) (Inr rc),
                     Subprocess_run (cmd_re opts (out_file ps)) (Inr 0)]) @ rest"
    "list_all quiet rest"
    using remove_and_switch_more reencoded(5) by metis
  then show ?thesis by simp
qed

lemma subs_stage_more:
  "\<exists>rest. events (subs_stage env u opts ps) = events ps @ rest \<and> list_all quiet rest"
  by (cases rule: subs_stage_cases [of opts env u ps]) simp_all

lemma subs_stage_out_file: "out_file (subs_stage env u opts ps) = out_file ps"
  by (cases rule: subs_stage_cases [of opts env u ps]) simp_all

lemma stages_more:
  "\<exists>rest. events (subs_stage env u opts (after_trim env opts ps)) = events ps @ rest \<and>
      list_all quiet rest"
proof -
  obtain m1 where 1: "events (convert_stage env opts ps) = events ps @ m1" "list_all quiet m1"
    using convert_stage_more by blast
  obtain m2 where 2: "events (trim_stage env opts (convert_stage env opts ps))
      = events (convert_stage env opts ps) @ m2" "list_all quiet m2"
    using trim_stage_more by blast
  obtain m3 where 3: "events (subs_stage env u opts (trim_stage env opts (convert_stage env opts ps)))
      = events (trim_stage env opts (convert_stage env opts ps)) @ m3" "list_all quiet m3"
    using subs_stage_more by blast
  have "events (subs_stage env u opts (after_trim env opts ps)) = events ps @ (m1 @ m2 @ m3)"
    by (simp add: after_trim_def after_convert_def 1 2 3)
  moreover have "list_all quiet (m1 @ m2 @ m3)"
    using 1 2 3 by simp
  ultimately show ?thesis by blast
qed

lemma at_end_events:
  "events (at_end env u opts ps) =
     events (subs_stage env u opts (after_trim env opts ps)) @
       [Schedule (Add_history u (out_file (after_trim env opts ps))),
        Schedule (Update_progress 0),
        Schedule (Set_status (Text ''Ready'')),
        Direct (Log (''Completed: '' @ out_file (after_trim env opts ps)) None)]"
  by (simp add: at_end_def final_updates_def subs_stage_out_file)

lemma process_task_fetched:
  assumes "ydl_download env u (ydl_opts opts) d0 = (hooks, Inr f, d1)"
  shows "process_task env (u, opts) d0 =
     (events (at_end env u opts (fetched u opts hooks f d1)),
      disk (at_end env u opts (fetched u opts hooks f d1)))"
  using assms by (simp add: process_task_def fetch_stage_def fetched_def Let_def)

lemma process_task_starts:
  "\<exists>rest. fst (process_task env (u, opts) d0) =
     [Direct (Log (''Start: '' @ u) None),
      Schedule (Set_status (Text ''Downloading...'')),
      Extract_info u (ydl_opts opts)] @ rest"
proof -
  obtain hooks r d1 where y: "ydl_download env u (ydl_opts opts) d0 = (hooks, r, d1)"
    by (cases "ydl_download env u (ydl_opts opts) d0")
  show ?thesis
  proof (cases r)
    case (Inl e)
    with y show ?thesis by (simp add: process_task_failed)
  next
    case (Inr f)
    obtain rest where
      "events (subs_stage env u opts (after_trim env opts (fetched u opts hooks f d1))) =
         events (fetched u opts hooks f d1) @ rest"
      using stages_more by blast
    with y Inr show ?thesis
      by (simp add: process_task_fetched at_end_events fetched_def)
  qed
qed

section \<open>What the transform stages return\<close>

lemma check_zero: "check cmd (Inr 0) = Inr 0"
  by (simp add: check_def)

lemma convert_stage_raised:
  assumes "audio_only opts" "convert_mp3 opts" "convert_raises env ps = Some e"
  shows "out_file (convert_stage env opts ps) = out_file ps \<and>
         last (events (convert_stage env opts ps)) = Direct (Log ''MP3 conversion failed: '' (Some e))"
proof (cases rule: convert_stage_cases [of opts env ps])
  case skipped
  with assms show ?thesis by simp
next
  case (failed r d1 e')
  with assms(3) have "e' = e" by (simp add: convert_raises_def)
  with failed show ?thesis by simp
next
  case (converted d1)
  show ?thesis
  proof (cases rule: remove_and_switch_cases
      [of env ps d1 "''MP3 conversion failed: ''" "mp3_path (out_file ps)"
          "events ps @ [Subprocess_run (mp3_cmd (out_file ps)) (Inr 0)]"])
    case (kept e')
    with assms(3) converted(3) have "e' = e" by (simp add: convert_raises_def check_zero)
    with kept converted(4) show ?thesis by simp
  next
    case (switched d')
    with assms(3) converted(3) show ?thesis by (simp add: convert_raises_def check_zero)
  qed
qed

lemma convert_stage_done:
  assumes "audio_only opts" "convert_mp3 opts" "convert_raises env ps = None"
  shows "out_file (convert_stage env opts ps) = mp3_path (out_file ps)"
proof (cases rule: convert_stage_cases [of opts env ps])
  case skipped
  with assms show ?thesis by simp
next
  case (failed r d1 e')
  with assms(3) show ?thesis by (simp add: convert_raises_def)
next
  case (converted d1)
  show ?thesis
  proof (cases rule: remove_and_switch_cases
      [of env ps d1 "''MP3 conversion failed: ''" "mp3_path (out_file ps)"
          "events ps @ [Subprocess_run (mp3_cmd (out_file ps)) (Inr 0)]"])
    case (kept e')
    with assms(3) converted(3) show ?thesis by (simp add: convert_raises_def check_zero)
  next
    case (switched d')
    with converted(4) show ?thesis by simp
  qed
qed

lemma trim_stage_raised:
  assumes "wants_trim opts" "trim_raises env opts ps = Some e"
  shows "out_file (trim_stage env opts ps) = out_file ps \<and>
         last (events (trim_stage env opts ps)) = Direct (Log ''Trim failed: '' (Some e))"
proof (cases rule: trim_stage_cases [of opts env ps])
  case skipped
  with assms show ?thesis by simp
next
  case (not_started e' d1)
  with assms(2) have "e' = e" by (simp add: trim_raises_def)
  with not_started show ?thesis by simp
next
  case (copied d1)
  show ?thesis
  proof (cases rule: remove_and_switch_cases
      [of env ps d1 "''Trim failed: ''" "trimmed_path (out_file ps)"
          "events ps @ [Subprocess_run (cmd_copy opts (out_file ps)) (Inr 0)]"])
    case (kept e')
    with assms(2) copied(2) have "e' = e" by (simp add: trim_raises_def)
    with kept copied(3) show ?thesis by simp
  next
    case (switched d')
    with assms(2) copied(2) show ?thesis by (simp add: trim_raises_def)
  qed
next
  case (both_failed rc d1 r2 d2 e')
  with assms(2) have "e' = e" by (simp add: trim_raises_def)
  with both_failed show ?thesis by simp
next
  case (reencoded rc d1 d2)
  show ?thesis
  proof (cases rule: remove_and_switch_cases
      [of env ps d2 "''Trim failed: ''" "trimmed_path (out_file ps)"
          "events ps @ [Subprocess_run (cmd_copy opts (out_file ps)) (Inr rc),
                        Subprocess_run (cmd_re opts (out_file ps)) (Inr 0)]"])
    case (kept e')
    with assms(2) reencoded(2,3,4) have "e' = e" by (simp add: trim_raises_def check_zero)
    with kept reencoded(5) show ?thesis by simp
  next
    case (switched d')
    with assms(2) reencoded(2,3,4) show ?thesis by (simp add: trim_raises_def check_zero)
  qed
qed

lemma trim_stage_done:
  assumes "wants_trim opts" "trim_raises env opts ps = None"
  shows "out_file (trim_stage env opts ps) = trimmed_path (out_file ps)"
proof (cases rule: trim_stage_cases [of opts env ps])
  case skipped
  with assms show ?thesis by simp
next
  case (not_started e' d1)
  with assms(2) show ?thesis by (simp add: trim_raises_def)
next
  case (copied d1)
  show ?thesis
  proof (cases rule: remove_and_switch_cases
      [of env ps d1 "''Trim failed: ''" "trimmed_path (out_file ps)"
          "events ps @ [Subprocess_run (cmd_copy opts (out_file ps)) (Inr 0)]"])
    case (kept e')
    with assms(2) copied(2) show ?thesis by (simp add: trim_raises_def)
  next
    case (switched d')
    with copied(3) show ?thesis by simp
  qed
next
  case (both_failed rc d1 r2 d2 e')
  with assms(2) show ?thesis by (simp add: trim_raises_def)
next
  case (reencoded rc d1 d2)
  show ?thesis
  proof (cases rule: remove_and_switch_cases
      [of env ps d2 "''Trim failed: ''" "trimmed_path (out_file ps)"
          "events ps @ [Subprocess_run (cmd_copy opts (out_file ps)) (Inr rc),
                        Subprocess_run (cmd_re opts (out_file ps)) (Inr 0)]"])
    case (kept e')
    with assms(2) reencoded(2,3,4) show ?thesis by (simp add: trim_raises_def check_zero)
  next
    case (switched d')
    with reencoded(5) show ?thesis by simp
  qed
qed

lemma last_in_set_events:
  assumes "last xs = x" "xs \<noteq> []"
  shows "x \<in> set xs"
  using assms by auto

lemma deliver_fetched:
  "history (deliver (events (fetched u opts hooks f d)) a) = history a \<and>
   clock (deliver (events (fetched u opts hooks f d)) a) = clock a"
proof -
  let ?a1 = "perform (Set_status (Text ''Downloading...'')) (perform (Log (''Start: '' @ u) None) a)"
  have "deliver (events (fetched u opts hooks f d)) a = deliver (concat (map progress hooks)) ?a1"
    by (simp add: fetched_def)
  moreover have "history ?a1 = history a" "clock ?a1 = clock a"
    by (simp_all add: perform_def set_status_def ui_log_def)
  ultimately show ?thesis
    using deliver_hooks [of hooks ?a1] by simp
qed

lemma deliver_final:
  "history (deliver [Schedule (Add_history u f), Schedule (Update_progress 0),
                     Schedule (Set_status (Text ''Ready'')), Direct (Log msg None)] a) =
     \<lparr>item_time = clock a, item_url = u, item_file = f\<rparr> # history a \<and>
   status_var (deliver [Schedule (Add_history u f), Schedule (Update_progress 0),
                     Schedule (Set_status (Text ''Ready'')), Direct (Log msg None)] a) = Text ''Ready''"
  by (simp add: perform_def add_history_def refresh_history_list_def save_history_def
      update_progress_def set_status_def ui_log_def)

section \<open>A failed download\<close>

text \<open>
  Claim C1. When the download raises, \<^verbatim>\<open>process_task\<close> logs the error, schedules the error
  dialog and returns: the events of the task are the start, the progress callbacks of the
  download and these two calls. No tool is run, no file removed, no subtitles fetched, no
  history entry or \<^verbatim>\<open>Ready\<close> status scheduled; the history the \<^verbatim>\<open>App\<close> holds after the calls
  are delivered is the one before. The loop of \<^verbatim>\<open>run\<close> marks the task done and goes on
  with the next turns as it would have from the same disk. The error reaches the log, but
  not the user as a dialog: the scheduled callback raises \<^verbatim>\<open>NameError\<close> and no message box
  is shown, where the claim has the error surfaced to the observer.
\<close>

theorem fetch_failure_stops:
  assumes "ydl_download env u (ydl_opts opts) d0 = (hooks, Inl e, d1)"
  shows "process_task env (u, opts) d0 =
          ([Direct (Log (''Start: '' @ u) None),
            Schedule (Set_status (Text ''Downloading...'')),
            Extract_info u (ydl_opts opts)] @ concat (map progress hooks) @
           [Direct (Log ''Download failed: '' (Some e)),
            Schedule (Showerror ''Download failed'')], d1) \<and>
     (\<forall>cmd r. Subprocess_run cmd r \<notin> set (fst (process_task env (u, opts) d0))) \<and>
     (\<forall>p r. Os_remove p r \<notin> set (fst (process_task env (u, opts) d0))) \<and>
     (\<forall>v x. Download_subs v x \<notin> set (fst (process_task env (u, opts) d0))) \<and>
     (\<forall>v f. Schedule (Add_history v f) \<notin> set (fst (process_task env (u, opts) d0))) \<and>
     Schedule (Set_status (Text ''Ready'')) \<notin> set (fst (process_task env (u, opts) d0)) \<and>
     history (deliver (fst (process_task env (u, opts) d0)) a) = history a \<and>
     log_area (deliver (fst (process_task env (u, opts) d0)) a) =
       log_area a @ [(''Start: '' @ u, None), (''Download failed: '', Some e)] \<and>
     dialogs (deliver (fst (process_task env (u, opts) d0)) a) = dialogs a \<and>
     callback_errors (deliver (fst (process_task env (u, opts) d0)) a) =
       callback_errors a @ [NameError] \<and>
     run env (Got (u, opts) # polls) d0 =
       (fst (process_task env (u, opts) d0) @ [Task_done] @ fst (run env polls d1),
        snd (run env polls d1))"
proof -
  let ?hk = "concat (map progress hooks)"
  let ?ev = "[Direct (Log (''Start: '' @ u) None),
       Schedule (Set_status (Text ''Downloading...'')),
       Extract_info u (ydl_opts opts)] @ ?hk @
      [Direct (Log ''Download failed: '' (Some e)),
       Schedule (Showerror ''Download failed'')]"
  have pt: "process_task env (u, opts) d0 = (?ev, d1)"
    using assms by (rule process_task_failed)
  have hk: "\<And>ev. ev \<in> set ?hk \<Longrightarrow> (\<exists>pct. ev = Schedule (Update_progress pct)) \<or>
      (\<exists>txt. ev = Schedule (Set_status txt) \<and> txt \<noteq> Text ''Ready'')"
    by (rule hooks_events)
  have 1: "\<forall>cmd r. Subprocess_run cmd r \<notin> set ?ev"
    using hk by fastforce
  have 2: "\<forall>p r. Os_remove p r \<notin> set ?ev"
    using hk by fastforce
  have 3: "\<forall>v x. Download_subs v x \<notin> set ?ev"
    using hk by fastforce
  have 4: "\<forall>v f. Schedule (Add_history v f) \<notin> set ?ev"
    using hk by fastforce
  have 5: "Schedule (Set_status (Text ''Ready'')) \<notin> set ?ev"
    using hk by fastforce
  let ?a1 = "perform (Set_status (Text ''Downloading...'')) (perform (Log (''Start: '' @ u) None) a)"
  have d: "deliver ?ev a =
      perform (Showerror ''Download failed'')
        (perform (Log ''Download failed: '' (Some e)) (deliver ?hk ?a1))"
    by (simp add: deliver_append)
  have a1: "history ?a1 = history a" "log_area ?a1 = log_area a @ [(''Start: '' @ u, None)]"
      "dialogs ?a1 = dialogs a" "callback_errors ?a1 = callback_errors a"
    by (simp_all add: perform_def set_status_def ui_log_def)
  note dh = deliver_hooks [of hooks ?a1]
  have 6: "history (deliver ?ev a) = history a"
    unfolding d using dh a1 by (simp add: perform_def ui_log_def)
  have 7: "log_area (deliver ?ev a) =
       log_area a @ [(''Start: '' @ u, None), (''Download failed: '', Some e)]"
    unfolding d using dh a1 by (simp add: perform_def ui_log_def)
  have 8: "dialogs (deliver ?ev a) = dialogs a"
    unfolding d using dh a1 by (simp add: perform_def ui_log_def)
  have ce: "callback_errors (deliver ?ev a) = callback_errors a @ [NameError]"
    unfolding d using dh a1 by (simp add: perform_def ui_log_def)
  have 9: "run env (Got (u, opts) # polls) d0 =
       (?ev @ [Task_done] @ fst (run env polls d1), snd (run env polls d1))"
    by (simp add: pt split_beta)
  show ?thesis
    unfolding pt fst_conv using 1 2 3 4 5 6 7 8 ce 9 by (intro conjI) (rule refl, assumption+)
qed

lemma process_good:
  "process_task env_first_fails (''https://youtu.be/good'', opts_plain) {} =
     ([Direct (Log ''Start: https://youtu.be/good'' None),
       Schedule (Set_status (Text ''Downloading...'')),
       Extract_info ''https://youtu.be/good'' (ydl_opts opts_plain),
       Schedule (Add_history ''https://youtu.be/good'' ''/dl/good.mp4''),
       Schedule (Update_progress 0),
       Schedule (Set_status (Text ''Ready'')),
       Direct (Log ''Completed: /dl/good.mp4'' None)], {''/dl/good.mp4''})"
  by (simp add: process_task_def fetch_stage_def env_first_fails_def at_end_def after_trim_def
      after_convert_def convert_stage_def trim_stage_def wants_trim_def subs_stage_def
      final_updates_def opts_plain_def)

text \<open>
  The theorem in a world where the first URL fails after one progress report: the second
  task of the queue is still processed to its history entry.
\<close>

theorem fetch_failure_stops_witness:
  "ydl_download env_first_fails ''https://youtu.be/bad'' (ydl_opts opts_plain) {} =
     ([hook_quarter], Inl (Other ''HTTP Error 403''), {}) \<and>
   process_task env_first_fails (''https://youtu.be/bad'', opts_plain) {} =
     ([Direct (Log ''Start: https://youtu.be/bad'' None),
       Schedule (Set_status (Text ''Downloading...'')),
       Extract_info ''https://youtu.be/bad'' (ydl_opts opts_plain),
       Schedule (Update_progress 25),
       Schedule (Set_status (Downloading_text 25 (Size 250 ''B'') (Size 1000 ''B''))),
       Direct (Log ''Download failed: '' (Some (Other ''HTTP Error 403''))),
       Schedule (Showerror ''Download failed'')], {}) \<and>
   history (deliver (fst (process_task env_first_fails (''https://youtu.be/bad'', opts_plain) {})) app0) = [] \<and>
   Schedule (Add_history ''https://youtu.be/good'' ''/dl/good.mp4'')
     \<in> set (fst (run env_first_fails
                 [Got (''https://youtu.be/bad'', opts_plain), Empty,
                  Got (''https://youtu.be/good'', opts_plain)] {}))"
proof -
  have h: "ydl_download env_first_fails ''https://youtu.be/bad'' (ydl_opts opts_plain) {} =
     ([hook_quarter], Inl (Other ''HTTP Error 403''), {})"
    by (simp add: env_first_fails_def)
  note t = fetch_failure_stops [OF h, of app0 "[Empty, Got (''https://youtu.be/good'', opts_plain)]"]
  have p: "progress hook_quarter =
      [Schedule (Update_progress 25),
       Schedule (Set_status (Downloading_text 25 (Size 250 ''B'') (Size 1000 ''B'')))]"
    by (simp add: progress_def hook_quarter_def py_or_def truthy_def human_size_def)
  have 1: "process_task env_first_fails (''https://youtu.be/bad'', opts_plain) {} =
     ([Direct (Log ''Start: https://youtu.be/bad'' None),
       Schedule (Set_status (Text ''Downloading...'')),
       Extract_info ''https://youtu.be/bad'' (ydl_opts opts_plain),
       Schedule (Update_progress 25),
       Schedule (Set_status (Downloading_text 25 (Size 250 ''B'') (Size 1000 ''B''))),
       Direct (Log ''Download failed: '' (Some (Other ''HTTP Error 403''))),
       Schedule (Showerror ''Download failed'')], {})"
    using t [THEN conjunct1] by (simp add: p)
  have 2: "history (deliver (fst (process_task env_first_fails (''https://youtu.be/bad'', opts_plain) {})) app0) = []"
    using t [THEN conjunct2, THEN conjunct2, THEN conjunct2, THEN conjunct2, THEN conjunct2, THEN conjunct2, THEN conjunct1] by (simp add: app0_def)
  have r: "run env_first_fails [Empty, Got (''https://youtu.be/good'', opts_plain)] {} =
      (fst (process_task env_first_fails (''https://youtu.be/good'', opts_plain) {}) @ [Task_done],
       {''/dl/good.mp4''})"
    by (simp add: process_good)
  have "run env_first_fails
          [Got (''https://youtu.be/bad'', opts_plain), Empty,
           Got (''https://youtu.be/good'', opts_plain)] {} =
        (fst (process_task env_first_fails (''https://youtu.be/bad'', opts_plain) {}) @ [Task_done] @
         fst (run env_first_fails [Empty, Got (''https://youtu.be/good'', opts_plain)] {}),
         snd (run env_first_fails [Empty, Got (''https://youtu.be/good'', opts_plain)] {}))"
    using t [THEN conjunct2, THEN conjunct2, THEN conjunct2, THEN conjunct2, THEN conjunct2, THEN conjunct2, THEN conjunct2, THEN conjunct2, THEN conjunct2, THEN conjunct2] .
  then have 3: "Schedule (Add_history ''https://youtu.be/good'' ''/dl/good.mp4'')
     \<in> set (fst (run env_first_fails
                 [Got (''https://youtu.be/bad'', opts_plain), Empty,
                  Got (''https://youtu.be/good'', opts_plain)] {}))"
    unfolding r by (simp add: process_good)
  from h 1 2 3 show ?thesis by (intro conjI)
qed

section \<open>Direct calls and the format fallback\<close>

text \<open>
  Claim C8 fails on the code. The status, progress, history and error calls of a worker
  go through \<^verbatim>\<open>schedule\<close>, but every \<^verbatim>\<open>self.ui.log\<close> is called on the worker thread itself:
  for every task and every world, the first thing \<^verbatim>\<open>process_task\<close> does is a direct call
  of \<^verbatim>\<open>log\<close>, followed by a scheduled \<^verbatim>\<open>set_status\<close>.
\<close>

theorem worker_logs_directly:
  "\<exists>rest. fst (process_task env (u, opts) d0) =
     Direct (Log (''Start: '' @ u) None) #
     Schedule (Set_status (Text ''Downloading...'')) # rest"
  using process_task_starts [of env u opts d0] by auto

lemma format_in_ydl_opts: "map_of (ydl_opts opts) ''format'' = Some (PyStr (format_selector opts))"
  by (simp add: ydl_opts_def)

lemma audio_is_no_height: "\<not> endswith ''audio'' ''p''"
  by code_simp

text \<open>
  Claim C10. With \<^verbatim>\<open>audio_only\<close> false, a quality that is neither \<^verbatim>\<open>best\<close> nor digits followed
  by \<^verbatim>\<open>p\<close> selects the format \<^verbatim>\<open>bestvideo+bestaudio/best\<close>, and the download is started with
  it; \<^verbatim>\<open>audio\<close> is such a quality. Ticking the audio box sets the quality to \<^verbatim>\<open>audio\<close>, and
  \<^verbatim>\<open>add_to_queue\<close> submits the quality and the flag as they stand.
\<close>

theorem quality_fallback:
  "(\<not> audio_only opts \<and> quality opts \<noteq> ''best'' \<and>
      \<not> (endswith (quality opts) ''p'' \<and> isdigit (butlast (quality opts))) \<longrightarrow>
        format_selector opts = ''bestvideo+bestaudio/best'' \<and>
        map_of (ydl_opts opts) ''format'' = Some (PyStr ''bestvideo+bestaudio/best'') \<and>
        Extract_info u (ydl_opts opts) \<in> set (fst (process_task env (u, opts) d0))) \<and>
   (\<not> audio_only opts' \<and> quality opts' = ''audio'' \<longrightarrow>
        format_selector opts' = ''bestvideo+bestaudio/best'') \<and>
   (audio_only_var a \<longrightarrow> quality_var (on_audio_toggle a) = ''audio'') \<and>
   (strip (url_var a') \<noteq> [] \<longrightarrow>
      (\<exists>t. tasks_q (add_to_queue a') = tasks_q a' @ [(strip (url_var a'), t)] \<and>
           quality t = quality_var a' \<and> audio_only t = audio_only_var a'))"
proof (intro conjI impI)
  assume h: "\<not> audio_only opts \<and> quality opts \<noteq> ''best'' \<and>
      \<not> (endswith (quality opts) ''p'' \<and> isdigit (butlast (quality opts)))"
  then show f: "format_selector opts = ''bestvideo+bestaudio/best''"
    by (simp only: format_selector_def Let_def if_False)
  then show "map_of (ydl_opts opts) ''format'' = Some (PyStr ''bestvideo+bestaudio/best'')"
    by (simp only: format_in_ydl_opts)
  show "Extract_info u (ydl_opts opts) \<in> set (fst (process_task env (u, opts) d0))"
    using process_task_starts [of env u opts d0] by auto
next
  assume "\<not> audio_only opts' \<and> quality opts' = ''audio''"
  moreover have "''audio'' \<noteq> ''best''" by simp
  ultimately show "format_selector opts' = ''bestvideo+bestaudio/best''"
    using audio_is_no_height by (simp only: format_selector_def Let_def if_False simp_thms)
next
  show "quality_var (on_audio_toggle a) = ''audio''" if "audio_only_var a"
    using that by (simp add: on_audio_toggle_def)
  show "\<exists>t. tasks_q (add_to_queue a') = tasks_q a' @ [(strip (url_var a'), t)] \<and>
           quality t = quality_var a' \<and> audio_only t = audio_only_var a'"
    if "strip (url_var a') \<noteq> []"
    using that by (simp add: add_to_queue_def Let_def ui_log_def)
qed

lemma unticked_fields:
  "url_var app_unticked = '' https://youtu.be/x ''" "quality_var app_unticked = ''audio''"
  "audio_only_var app_unticked = False" "tasks_q app_unticked = []"
  by (simp_all add: app_unticked_def app_ticked_def app0_def on_audio_toggle_def)

lemma unticked_queue:
  "tasks_q (add_to_queue app_unticked) = [(''https://youtu.be/x'', opts_audio)]"
proof -
  have s: "strip '' https://youtu.be/x '' = ''https://youtu.be/x''" by code_simp
  have l: "contains (lower ''https://youtu.be/x'') ''playlist'' = False" by code_simp
  show ?thesis
    by (simp add: add_to_queue_def app_unticked_def app_ticked_def app0_def on_audio_toggle_def
        s l ui_log_def opts_audio_def)
qed

text \<open>
  The theorem for a user who ticks the audio box, unticks it and adds the URL: the job has
  the quality \<^verbatim>\<open>audio\<close>, no audio flag, and the full video format.
\<close>

theorem quality_fallback_witness:
  "audio_only_var app_ticked \<and> quality_var (on_audio_toggle app_ticked) = ''audio'' \<and>
   strip (url_var app_unticked) \<noteq> [] \<and>
   tasks_q (add_to_queue app_unticked) = [(''https://youtu.be/x'', opts_audio)] \<and>
   \<not> audio_only opts_audio \<and> quality opts_audio = ''audio'' \<and>
   format_selector opts_audio = ''bestvideo+bestaudio/best'' \<and>
   map_of (ydl_opts opts_audio) ''format'' = Some (PyStr ''bestvideo+bestaudio/best'') \<and>
   Extract_info ''https://youtu.be/x'' (ydl_opts opts_audio)
     \<in> set (fst (process_task env_first_fails (''https://youtu.be/x'', opts_audio) {}))"
proof -
  note q = quality_fallback [where opts = opts_audio and opts' = opts_audio and a = app_ticked
      and a' = app_unticked and u = "''https://youtu.be/x''" and env = env_first_fails and ?d0.0 = "{}"]
  have a: "audio_only_var app_ticked" by (simp add: app_ticked_def)
  have b: "\<not> audio_only opts_audio" and c: "quality opts_audio = ''audio''"
    by (simp_all add: opts_audio_def)
  have d: "\<not> audio_only opts_audio \<and> quality opts_audio \<noteq> ''best'' \<and>
      \<not> (endswith (quality opts_audio) ''p'' \<and> isdigit (butlast (quality opts_audio)))"
    using audio_is_no_height by (simp add: opts_audio_def)
  have e: "strip (url_var app_unticked) \<noteq> []"
    unfolding unticked_fields by code_simp
  have 1: "quality_var (on_audio_toggle app_ticked) = ''audio''"
    using q [THEN conjunct2, THEN conjunct2, THEN conjunct1, THEN mp, OF a] .
  note f = q [THEN conjunct1, THEN mp, OF d]
  have 2: "format_selector opts_audio = ''bestvideo+bestaudio/best''"
    using f [THEN conjunct1] .
  have 3: "map_of (ydl_opts opts_audio) ''format'' = Some (PyStr ''bestvideo+bestaudio/best'')"
    using f [THEN conjunct2, THEN conjunct1] .
  have 4: "Extract_info ''https://youtu.be/x'' (ydl_opts opts_audio)
     \<in> set (fst (process_task env_first_fails (''https://youtu.be/x'', opts_audio) {}))"
    using f [THEN conjunct2, THEN conjunct2] .
  from a 1 e unticked_queue b c 2 3 4 show ?thesis by (intro conjI)
qed

end
